theory Spec2Isabelle
  imports Complex_Main
begin

section \<open>JavaScript numbers\<close>

text \<open>
  The detection engine of \<^verbatim>\<open>content.js\<close> (class \<^verbatim>\<open>AdvancedMouthDeClicker\<close>) computes with
  JavaScript numbers. They are modelled as the reals extended by the three special values of
  IEEE arithmetic. Finite arithmetic is exact here: rounding, overflow, underflow, the sign of
  zero and the conversion to 32-bit floats of a \<^verbatim>\<open>Float32Array\<close> are not modelled. The special
  values follow ECMAScript: \<open>NaN\<close> is absorbing, every comparison with \<open>NaN\<close> is false, and
  \<^verbatim>\<open>Math.max\<close> and \<^verbatim>\<open>Math.min\<close> return \<open>NaN\<close> as soon as one argument is \<open>NaN\<close>.
\<close>

datatype jsnum = Num real | PosInf | NegInf | NaN

fun isFinite :: "jsnum \<Rightarrow> bool" where
  "isFinite (Num r) = True"
| "isFinite PosInf = False"
| "isFinite NegInf = False"
| "isFinite NaN = False"

instantiation jsnum :: "{plus, minus, uminus, times, inverse, abs, ord}"
begin

fun plus_jsnum :: "jsnum \<Rightarrow> jsnum \<Rightarrow> jsnum" where
  "plus_jsnum (Num a) (Num b) = Num (a + b)"
| "plus_jsnum NaN y = NaN"
| "plus_jsnum x NaN = NaN"
| "plus_jsnum PosInf NegInf = NaN"
| "plus_jsnum NegInf PosInf = NaN"
| "plus_jsnum PosInf y = PosInf"
| "plus_jsnum x PosInf = PosInf"
| "plus_jsnum NegInf y = NegInf"
| "plus_jsnum x NegInf = NegInf"

fun uminus_jsnum :: "jsnum \<Rightarrow> jsnum" where
  "uminus_jsnum (Num a) = Num (- a)"
| "uminus_jsnum PosInf = NegInf"
| "uminus_jsnum NegInf = PosInf"
| "uminus_jsnum NaN = NaN"

definition minus_jsnum :: "jsnum \<Rightarrow> jsnum \<Rightarrow> jsnum" where
  "minus_jsnum x y = x + (- y)"

fun times_jsnum :: "jsnum \<Rightarrow> jsnum \<Rightarrow> jsnum" where
  "times_jsnum (Num a) (Num b) = Num (a * b)"
| "times_jsnum NaN y = NaN"
| "times_jsnum x NaN = NaN"
| "times_jsnum PosInf (Num b) = (if b = 0 then NaN else if 0 < b then PosInf else NegInf)"
| "times_jsnum NegInf (Num b) = (if b = 0 then NaN else if 0 < b then NegInf else PosInf)"
| "times_jsnum (Num a) PosInf = (if a = 0 then NaN else if 0 < a then PosInf else NegInf)"
| "times_jsnum (Num a) NegInf = (if a = 0 then NaN else if 0 < a then NegInf else PosInf)"
| "times_jsnum PosInf PosInf = PosInf"
| "times_jsnum PosInf NegInf = NegInf"
| "times_jsnum NegInf PosInf = NegInf"
| "times_jsnum NegInf NegInf = PosInf"

fun divide_jsnum :: "jsnum \<Rightarrow> jsnum \<Rightarrow> jsnum" where
  "divide_jsnum (Num a) (Num b) =
     (if b \<noteq> 0 then Num (a / b) else if a = 0 then NaN else if 0 < a then PosInf else NegInf)"
| "divide_jsnum NaN y = NaN"
| "divide_jsnum x NaN = NaN"
| "divide_jsnum (Num a) PosInf = Num 0"
| "divide_jsnum (Num a) NegInf = Num 0"
| "divide_jsnum PosInf (Num b) = (if 0 \<le> b then PosInf else NegInf)"
| "divide_jsnum NegInf (Num b) = (if 0 \<le> b then NegInf else PosInf)"
| "divide_jsnum PosInf y = NaN"
| "divide_jsnum NegInf y = NaN"

definition inverse_jsnum :: "jsnum \<Rightarrow> jsnum" where
  "inverse_jsnum x = divide (Num 1) x"

fun abs_jsnum :: "jsnum \<Rightarrow> jsnum" where
  "abs_jsnum (Num a) = Num \<bar>a\<bar>"
| "abs_jsnum PosInf = PosInf"
| "abs_jsnum NegInf = PosInf"
| "abs_jsnum NaN = NaN"

fun less_jsnum :: "jsnum \<Rightarrow> jsnum \<Rightarrow> bool" where
  "less_jsnum (Num a) (Num b) = (a < b)"
| "less_jsnum (Num a) PosInf = True"
| "less_jsnum NegInf (Num b) = True"
| "less_jsnum NegInf PosInf = True"
| "less_jsnum x y = False"

fun less_eq_jsnum :: "jsnum \<Rightarrow> jsnum \<Rightarrow> bool" where
  "less_eq_jsnum (Num a) (Num b) = (a \<le> b)"
| "less_eq_jsnum NaN y = False"
| "less_eq_jsnum x NaN = False"
| "less_eq_jsnum x PosInf = True"
| "less_eq_jsnum NegInf y = True"
| "less_eq_jsnum x y = False"

instance ..

end

text \<open>\<^verbatim>\<open>Math.max(a, b)\<close> and \<^verbatim>\<open>Math.min(a, b)\<close>.\<close>

fun jmax :: "jsnum \<Rightarrow> jsnum \<Rightarrow> jsnum" where
  "jmax NaN y = NaN"
| "jmax x NaN = NaN"
| "jmax x y = (if x < y then y else x)"

fun jmin :: "jsnum \<Rightarrow> jsnum \<Rightarrow> jsnum" where
  "jmin NaN y = NaN"
| "jmin x NaN = NaN"
| "jmin x y = (if y < x then y else x)"

text \<open>\<^verbatim>\<open>Math.max(...xs)\<close>: \<open>-Infinity\<close> on no argument.\<close>

definition jmaxs :: "jsnum list \<Rightarrow> jsnum" where
  "jmaxs xs = foldl jmax NegInf xs"

fun jsqrt :: "jsnum \<Rightarrow> jsnum" where
  "jsqrt (Num a) = (if 0 \<le> a then Num (sqrt a) else NaN)"
| "jsqrt PosInf = PosInf"
| "jsqrt NegInf = NaN"
| "jsqrt NaN = NaN"

fun jexp :: "jsnum \<Rightarrow> jsnum" where
  "jexp (Num a) = Num (exp a)"
| "jexp PosInf = PosInf"
| "jexp NegInf = Num 0"
| "jexp NaN = NaN"

fun jlog10 :: "jsnum \<Rightarrow> jsnum" where
  "jlog10 (Num a) = (if 0 < a then Num (log 10 a) else if a = 0 then NegInf else NaN)"
| "jlog10 PosInf = PosInf"
| "jlog10 NegInf = NaN"
| "jlog10 NaN = NaN"

text \<open>
  \<^verbatim>\<open>Math.pow(base, exponent)\<close>, after \<open>Number::exponentiate\<close> of ECMAScript: a zero exponent
  gives 1 whatever the base, a negative base has a power only at an integer exponent.
\<close>

definition oddInteger :: "real \<Rightarrow> bool" where
  "oddInteger e = (of_int \<lfloor>e\<rfloor> = e \<and> odd \<lfloor>e\<rfloor>)"

fun jpow :: "jsnum \<Rightarrow> jsnum \<Rightarrow> jsnum" where
  "jpow b NaN = NaN"
| "jpow b (Num e) =
     (if e = 0 then Num 1
      else case b of
        NaN \<Rightarrow> NaN
      | PosInf \<Rightarrow> (if 0 < e then PosInf else Num 0)
      | NegInf \<Rightarrow> (if 0 < e then (if oddInteger e then NegInf else PosInf) else Num 0)
      | Num x \<Rightarrow>
          (if 0 < x then Num (x powr e)
           else if x = 0 then (if 0 < e then Num 0 else PosInf)
           else if of_int \<lfloor>e\<rfloor> = e then Num (x powi \<lfloor>e\<rfloor>)
           else NaN))"
| "jpow b PosInf =
     (case b of
        NaN \<Rightarrow> NaN
      | Num x \<Rightarrow> (if 1 < \<bar>x\<bar> then PosInf else if \<bar>x\<bar> = 1 then NaN else Num 0)
      | PosInf \<Rightarrow> PosInf
      | NegInf \<Rightarrow> PosInf)"
| "jpow b NegInf =
     (case b of
        NaN \<Rightarrow> NaN
      | Num x \<Rightarrow> (if 1 < \<bar>x\<bar> then Num 0 else if \<bar>x\<bar> = 1 then NaN else PosInf)
      | PosInf \<Rightarrow> Num 0
      | NegInf \<Rightarrow> Num 0)"

text \<open>
  Reading \<^verbatim>\<open>xs[i]\<close>: beyond the end JavaScript yields \<^verbatim>\<open>undefined\<close>, which every arithmetic
  operation turns into \<open>NaN\<close> and every comparison into false.
\<close>

definition item :: "jsnum list \<Rightarrow> nat \<Rightarrow> jsnum" where
  "item xs i = (if i < length xs then xs ! i else NaN)"

section \<open>The state of the engine\<close>

text \<open>
  The tunable parameters of \<^verbatim>\<open>this.params\<close>. The nested tables \<^verbatim>\<open>thresholds\<close> and
  \<^verbatim>\<open>freqWeights\<close> and the band table \<^verbatim>\<open>this.freqBands\<close> are written once by the constructor and
  never assigned again by the class; they are constants here, as is \<^verbatim>\<open>this.lpcOrder\<close>.
\<close>

record params =
  sensitivity :: jsnum
  frequencySkew :: jsnum
  clickWidening :: jsnum
  reductionAmount :: jsnum
  mode :: string

definition thresholds_lpcError :: real where
  "thresholds_lpcError = 0.018"

definition thresholds_spectralFlux :: real where
  "thresholds_spectralFlux = 0.16"

definition thresholds_transientRatio :: real where
  "thresholds_transientRatio = 2.8"

definition thresholds_confidenceThreshold :: real where
  "thresholds_confidenceThreshold = 0.65"

datatype band = Low | Mid | High | Mouth

fun freqWeights :: "band \<Rightarrow> real" where
  "freqWeights Low = 0.2"
| "freqWeights Mid = 0.6"
| "freqWeights High = 1.0"
| "freqWeights Mouth = 1.5"

fun freqBands :: "band \<Rightarrow> real \<times> real" where
  "freqBands Low = (100, 800)"
| "freqBands Mid = (800, 2500)"
| "freqBands High = (2500, 8000)"
| "freqBands Mouth = (2000, 5000)"

definition lpcOrder :: nat where
  "lpcOrder = 16"

text \<open>
  The calls made on the gain automation \<^verbatim>\<open>this.clickGain.gain\<close> (an \<^verbatim>\<open>AudioParam\<close> of the
  host). The first argument is the gain value, the last the time in seconds.
\<close>

datatype gainCall =
    CancelScheduledValues jsnum
  | SetValueAtTime jsnum jsnum
  | LinearRampToValueAtTime jsnum jsnum

text \<open>
  The fields of \<^verbatim>\<open>this\<close> that the analysis reads or writes. \<open>sampleRate\<close> is the sample
  rate of the audio context (positive), \<open>frequencyBinCount\<close> is
  \<^verbatim>\<open>this.analyser.frequencyBinCount\<close>, \<open>delayTime\<close> is \<^verbatim>\<open>this.delayNode.delayTime.value\<close>, and
  \<open>clickGain\<close> is the list of automation calls the host has accepted so far, oldest first.
  A cache that is \<^verbatim>\<open>null\<close> is \<open>None\<close>. A \<open>processingEnabled\<close> that is still
  \<^verbatim>\<open>undefined\<close> (before the stored settings arrive) is \<open>False\<close>, as it is only ever negated.
\<close>

record state =
  processingEnabled :: bool
  params :: params
  sampleRate :: real
  frequencyBinCount :: nat
  bufferSize :: nat
  circularBuffer :: "jsnum list"
  bufferIndex :: nat
  previousSpectrum :: "jsnum list"
  freqBinCache :: "(band \<times> nat \<times> nat) list option"
  cacheSampleRate :: real
  loudnessHistory :: "jsnum list"
  adaptiveThreshold :: jsnum
  backgroundNoiseLevel :: jsnum
  signalToNoiseRatio :: jsnum
  clickHistory :: "real list"
  maxClicksPerSecond :: nat
  minClickInterval :: real
  lastClickTime :: real
  clickSuppressionTime :: real
  clickCount :: nat
  delayTime :: real
  clickGain :: "gainCall list"

text \<open>The state the constructor builds for an audio context of sample rate \<open>rate\<close>.\<close>

definition initialParams :: params where
  "initialParams =
     \<lparr>sensitivity = Num 1, frequencySkew = Num 0, clickWidening = Num 5,
      reductionAmount = Num (- 60), mode = ''click''\<rparr>"

definition constructor :: "real \<Rightarrow> state" where
  "constructor rate =
     \<lparr>processingEnabled = False,
      params = initialParams,
      sampleRate = rate,
      frequencyBinCount = 4096,
      bufferSize = nat \<lfloor>rate * 0.12\<rfloor>,
      circularBuffer = replicate (nat \<lfloor>rate * 0.12\<rfloor>) (Num 0),
      bufferIndex = 0,
      previousSpectrum = replicate 4096 (Num 0),
      freqBinCache = None,
      cacheSampleRate = 0,
      loudnessHistory = replicate 30 (Num (- 60)),
      adaptiveThreshold = Num 0.35,
      backgroundNoiseLevel = Num (- 40),
      signalToNoiseRatio = Num 1,
      clickHistory = [],
      maxClicksPerSecond = 8,
      minClickInterval = 125,
      lastClickTime = 0,
      clickSuppressionTime = 0,
      clickCount = 0,
      delayTime = 0.12,
      clickGain = []\<rparr>"

section \<open>Linear prediction\<close>

text \<open>
  \<^verbatim>\<open>computeLPCCoefficients(signal, order)\<close>. \<open>autocorrelation signal k\<close> is the entry
  \<^verbatim>\<open>r[k]\<close> after its loop; \<open>levinsonDurbin\<close> is the loop over \<open>i\<close>, a \<^verbatim>\<open>break\<close> returning the
  coefficients and the error reached so far. The inner update of \<^verbatim>\<open>a[j]\<close> is done in place,
  index by index, as the source does it.
\<close>

definition eps10 :: real where
  "eps10 = 1 / 10000000000"

definition autocorrelation :: "jsnum list \<Rightarrow> nat \<Rightarrow> jsnum" where
  "autocorrelation signal k =
     (let limit = length signal - k
      in foldl (\<lambda>rk i. rk + item signal i * item signal (i + k)) (Num 0) [0..<limit]
           / Num (real limit))"

fun levinsonDurbin :: "jsnum list \<Rightarrow> nat list \<Rightarrow> jsnum list \<Rightarrow> jsnum \<Rightarrow> jsnum list \<times> jsnum" where
  "levinsonDurbin r [] a e = (a, e)"
| "levinsonDurbin r (i # rest) a e =
     (let lambda0 = foldl (\<lambda>l j. l + item a j * item r (i - j)) (Num 0) [1..<i]
      in if \<bar>e\<bar> < Num eps10 then (a, e)
         else
           let lambda = (item r i - lambda0) / e
           in if Num 1 \<le> \<bar>lambda\<bar> then (a, e)
              else
                let a1 = foldl (\<lambda>b j. b[j := item b j - lambda * item b (i - j)]) a [1..<i];
                    a2 = a1[i := lambda]
                in levinsonDurbin r rest a2 (e * (Num 1 - lambda * lambda)))"

definition computeLPCCoefficients :: "jsnum list \<Rightarrow> nat \<Rightarrow> jsnum list \<times> jsnum" where
  "computeLPCCoefficients signal order =
     (let n = length signal
      in if n < order * 2 then (replicate (order + 1) (Num 0), Num 1)
         else
           let r = map (autocorrelation signal) [0..<order + 1]
           in if item r 0 < Num eps10 then (replicate (order + 1) (Num 0), Num 1)
              else
                let a = (replicate (order + 1) (Num 0))[0 := Num 1];
                    (a', e) = levinsonDurbin r [1..<order + 1] a (item r 0)
                in (a', jmax e (Num eps10)))"

text \<open>\<^verbatim>\<open>computePredictionError(signal, lpcCoeffs)\<close>: the entries below the order stay 0.\<close>

definition computePredictionError :: "jsnum list \<Rightarrow> jsnum list \<Rightarrow> jsnum list" where
  "computePredictionError signal lpcCoeffs =
     (let order = length lpcCoeffs - 1
      in map (\<lambda>i. if i < order then Num 0
                  else item signal i
                       - foldl (\<lambda>prediction j. prediction + item lpcCoeffs j * item signal (i - j))
                           (Num 0) [1..<order + 1])
           [0..<length signal])"

section \<open>Band energies and frequency weighting\<close>

text \<open>
  \<^verbatim>\<open>initFreqBinCache()\<close> keeps a valid cache and otherwise stores the bin range of each band,
  in the order of \<^verbatim>\<open>Object.entries(this.freqBands)\<close>.
\<close>

definition freqBin :: "state \<Rightarrow> real \<Rightarrow> nat" where
  "freqBin st freq = nat \<lfloor>freq * real (frequencyBinCount st) / sampleRate st\<rfloor>"

definition initFreqBinCache :: "state \<Rightarrow> state" where
  "initFreqBinCache st =
     (if cacheSampleRate st = sampleRate st \<and> freqBinCache st \<noteq> None then st
      else st\<lparr>cacheSampleRate := sampleRate st,
              freqBinCache :=
                Some (map (\<lambda>b. (b, freqBin st (fst (freqBands b)), freqBin st (snd (freqBands b))))
                        [Low, Mid, High, Mouth])\<rparr>)"

text \<open>
  \<^verbatim>\<open>calculateBandEnergy(freqData, minFreq, maxFreq, weight)\<close>: the bins of the first cached band
  with these two frequencies, computed afresh when there is none.
\<close>

definition calculateBandEnergy :: "state \<Rightarrow> jsnum list \<Rightarrow> real \<Rightarrow> real \<Rightarrow> real \<Rightarrow> jsnum \<times> state" where
  "calculateBandEnergy st freqData minFreq maxFreq weight =
     (let st1 = initFreqBinCache st;
          cached = find (\<lambda>(b, bins). fst (freqBands b) = minFreq \<and> snd (freqBands b) = maxFreq)
                     (case freqBinCache st1 of None \<Rightarrow> [] | Some cache \<Rightarrow> cache);
          (minBin, maxBin) =
            (case cached of
               Some (b, bins) \<Rightarrow> bins
             | None \<Rightarrow> (freqBin st1 minFreq, freqBin st1 maxFreq));
          energy = foldl (\<lambda>energy i. energy + jpow (Num 10) (item freqData i / Num 20)) (Num 0)
                     [minBin..<maxBin];
          binRange = int maxBin - int minBin
      in (if 0 < binRange then energy / Num (real_of_int binRange) * Num weight else Num 0, st1))"

text \<open>\<^verbatim>\<open>getFrequencyWeight(freq)\<close>.\<close>

definition getFrequencyWeight :: "state \<Rightarrow> jsnum \<Rightarrow> jsnum" where
  "getFrequencyWeight st freq =
     (let skew = frequencySkew (params st);
          centerFreq = Num 3500;
          freqRatio = freq / centerFreq
      in if skew < Num 0 then jexp (- \<bar>skew\<bar> * jmax (Num 0) (freqRatio - Num 1))
         else if Num 0 < skew then jexp (- skew * jmax (Num 0) (Num 1 - freqRatio))
         else
           let distance = \<bar>freq - centerFreq\<bar> / centerFreq
           in jexp (Num (- 2) * distance))"

section \<open>Loudness tracking\<close>

text \<open>
  \<^verbatim>\<open>[...xs].sort((a, b) => a - b)\<close>, as an insertion sort driven by the comparator: \<open>x\<close> goes
  before the first \<open>y\<close> with \<open>y - x > 0\<close>. On finite entries every conforming sort returns
  this list.
\<close>

fun insertAscending :: "jsnum \<Rightarrow> jsnum list \<Rightarrow> jsnum list" where
  "insertAscending x [] = [x]"
| "insertAscending x (y # ys) = (if Num 0 < y - x then x # y # ys else y # insertAscending x ys)"

definition sortAscending :: "jsnum list \<Rightarrow> jsnum list" where
  "sortAscending xs = foldr insertAscending xs []"

record loudnessInfo =
  loudnessDb :: jsnum
  snr :: jsnum
  infoAdaptiveThreshold :: jsnum

text \<open>
  \<^verbatim>\<open>updateDynamicLoudness(timeData, freqData)\<close>; the field \<open>infoAdaptiveThreshold\<close> is the
  \<^verbatim>\<open>adaptiveThreshold\<close> of the returned object.
\<close>

definition updateDynamicLoudness :: "state \<Rightarrow> jsnum list \<Rightarrow> jsnum list \<Rightarrow> loudnessInfo \<times> state" where
  "updateDynamicLoudness st timeData freqData =
     (let sumSquares = foldl (\<lambda>rms x. if isFinite x then rms + x * x else rms) (Num 0) timeData;
          rms = jsqrt (sumSquares / Num (real (length timeData)));
          loudness = (if isFinite rms \<and> Num 0 < rms
                      then Num 20 * jlog10 (jmax rms (Num eps10)) else Num (- 60));
          pushed = loudnessHistory st @ [loudness];
          history = (if 30 < length pushed then tl pushed else pushed);
          sortedLoudness = sortAscending history;
          background = item sortedLoudness (nat \<lfloor>real (length sortedLoudness) * 0.1\<rfloor>);
          currentSignal = (if isFinite loudness then loudness else Num (- 60));
          backgroundNoise = (if isFinite background then background else Num (- 40));
          ratio = jmax (Num 0.1) (jmin (Num 60) (currentSignal - backgroundNoise));
          loudnessBoost = jmax (Num 1) (jmin (Num 5) (Num 3 - ratio / Num 20));
          adaptive = jmax (Num 0.1)
                       (jmin (Num 1) (Num thresholds_confidenceThreshold / loudnessBoost))
      in (\<lparr>loudnessDb = loudness, snr = ratio, infoAdaptiveThreshold = adaptive\<rparr>,
          st\<lparr>loudnessHistory := history,
             backgroundNoiseLevel := background,
             signalToNoiseRatio := ratio,
             adaptiveThreshold := adaptive\<rparr>))"

section \<open>Rate limiting\<close>

text \<open>
  \<^verbatim>\<open>shouldProcessClick(isDetected, confidence)\<close>, with the value of \<^verbatim>\<open>performance.now()\<close> as
  the argument \<open>currentTime\<close> (milliseconds). \<open>requiredConfidence\<close> is the local constant of
  that name, computed from the pruned history.
\<close>

definition requiredConfidence :: "state \<Rightarrow> jsnum" where
  "requiredConfidence st =
     (let clickRatio = Num (real (length (clickHistory st))) / Num (real (maxClicksPerSecond st));
          sensitivityBoost = jpow (sensitivity (params st)) (Num 0.8);
          baseRequiredConfidence = Num 0.5 / sensitivityBoost
      in baseRequiredConfidence + clickRatio * Num 0.3 / sensitivityBoost)"

definition shouldProcessClick :: "real \<Rightarrow> state \<Rightarrow> bool \<Rightarrow> jsnum \<Rightarrow> bool \<times> state" where
  "shouldProcessClick currentTime st isDetected conf =
     (if \<not> isDetected then (False, st)
      else
        let st1 = st\<lparr>clickHistory := filter (\<lambda>time. currentTime - time < 1000) (clickHistory st)\<rparr>
        in if currentTime < clickSuppressionTime st1 then (False, st1)
           else if maxClicksPerSecond st1 \<le> length (clickHistory st1) then (False, st1)
           else if currentTime - lastClickTime st1 < minClickInterval st1 then (False, st1)
           else if conf < requiredConfidence st1 then (False, st1)
           else (True, st1\<lparr>clickHistory := clickHistory st1 @ [currentTime],
                            lastClickTime := currentTime,
                            clickSuppressionTime := currentTime + 50\<rparr>))"

section \<open>Spectral shape and speech protection\<close>

definition magnitude :: "jsnum list \<Rightarrow> nat \<Rightarrow> jsnum" where
  "magnitude freqData i = jpow (Num 10) (item freqData i / Num 20)"

definition binFreq :: "state \<Rightarrow> jsnum list \<Rightarrow> nat \<Rightarrow> jsnum" where
  "binFreq st freqData i = Num (real i * sampleRate st / (2 * real (length freqData)))"

definition calculateSpectralCentroid :: "state \<Rightarrow> jsnum list \<Rightarrow> jsnum" where
  "calculateSpectralCentroid st freqData =
     (let (numerator, denominator) =
            foldl (\<lambda>(numerator, denominator) i.
                     (numerator + binFreq st freqData i * magnitude freqData i,
                      denominator + magnitude freqData i))
              (Num 0, Num 0) [0..<length freqData]
      in if Num 0 < denominator then numerator / denominator else Num 0)"

definition calculateSpectralSpread :: "state \<Rightarrow> jsnum list \<Rightarrow> jsnum \<Rightarrow> jsnum" where
  "calculateSpectralSpread st freqData centroid =
     (let (numerator, denominator) =
            foldl (\<lambda>(numerator, denominator) i.
                     (numerator + jpow (binFreq st freqData i - centroid) (Num 2) * magnitude freqData i,
                      denominator + magnitude freqData i))
              (Num 0, Num 0) [0..<length freqData]
      in if Num 0 < denominator then jsqrt (numerator / denominator) else Num 0)"

definition calculateAutocorrelation :: "jsnum list \<Rightarrow> nat \<Rightarrow> jsnum list" where
  "calculateAutocorrelation signal maxLag =
     (let n = length signal
      in map (\<lambda>lag. if lag < n
                    then foldl (\<lambda>acc i. acc + item signal i * item signal (i + lag)) (Num 0)
                           [0..<n - lag] / Num (real (n - lag))
                    else Num 0)
           [0..<maxLag])"

definition detectFormantStructure :: "state \<Rightarrow> jsnum list \<Rightarrow> jsnum" where
  "detectFormantStructure st freqData =
     (let formantStart = nat \<lfloor>500 * real (length freqData) * 2 / sampleRate st\<rfloor>;
          formantEnd = nat \<lfloor>3000 * real (length freqData) * 2 / sampleRate st\<rfloor>;
          (peakCount, prevValue, isRising) =
            foldl (\<lambda>(peakCount, prevValue, isRising) i.
                     if prevValue < item freqData i \<and> \<not> isRising
                     then (peakCount, item freqData i, True)
                     else if item freqData i < prevValue \<and> isRising
                     then (peakCount + 1, item freqData i, False)
                     else (peakCount, item freqData i, isRising))
              (0 :: nat, item freqData formantStart, False) [formantStart + 1..<formantEnd]
      in jmin (Num 1) (Num (real peakCount) / Num 4))"

record bandEnergies =
  low :: jsnum
  mid :: jsnum
  high :: jsnum
  mouth :: jsnum

definition checkSpeechProtection :: "state \<Rightarrow> jsnum list \<Rightarrow> jsnum list \<Rightarrow> bandEnergies \<Rightarrow> jsnum" where
  "checkSpeechProtection st timeData freqData energies =
     (let autocorr = calculateAutocorrelation timeData 50;
          periodicity = jmaxs (drop 10 autocorr);
          formantStrength = detectFormantStructure st freqData;
          sustainedEnergy = (high energies < low energies + mid energies);
          protectionFactors =
            [if Num 0.3 < periodicity then Num 0.8 else Num 0,
             if Num 0.4 < formantStrength then Num 0.6 else Num 0,
             if sustainedEnergy then Num 0.3 else Num 0]
      in jmaxs protectionFactors)"

section \<open>Gain repair\<close>

text \<open>
  The gain automation belongs to the host. A host is modelled by the calls it refuses: given
  the calls it has accepted so far and the next call, \<open>True\<close> means that the call throws.
  \<open>schedule\<close> makes calls in order until one throws and reports whether one did.
\<close>

type_synonym host = "gainCall list \<Rightarrow> gainCall \<Rightarrow> bool"

datatype error = RangeError | TypeError | ScheduleError

fun schedule :: "host \<Rightarrow> gainCall list \<Rightarrow> gainCall list \<Rightarrow> gainCall list \<times> bool" where
  "schedule throws accepted [] = (accepted, False)"
| "schedule throws accepted (c # cs) =
     (if throws accepted c then (accepted, True) else schedule throws (accepted @ [c]) cs)"

text \<open>
  The local constants \<^verbatim>\<open>wideningDuration\<close> and \<^verbatim>\<open>reductionFactor\<close> of
  \<^verbatim>\<open>handleMouthClickDetected(confidence)\<close>, the second after its safety check.
\<close>

definition wideningDuration :: "params \<Rightarrow> jsnum" where
  "wideningDuration p =
     (let baseWidening = clickWidening p / Num 1000;
          modeMultiplier = (if mode p = ''smack'' then Num 1.5 else Num 1)
      in baseWidening * modeMultiplier)"

definition reductionFactor :: "params \<Rightarrow> jsnum" where
  "reductionFactor p =
     (let factor = (if reductionAmount p \<le> Num (- 60) then Num 0.0001
                    else jpow (Num 10) (reductionAmount p / Num 20))
      in if \<not> isFinite factor \<or> factor \<le> Num 0 then Num 0.0001 else factor)"

text \<open>The calls of the \<^verbatim>\<open>try\<close> block and of the \<^verbatim>\<open>catch\<close> block, in order.\<close>

definition smoothGainRamp :: "params \<Rightarrow> jsnum \<Rightarrow> gainCall list" where
  "smoothGainRamp p lookAheadTime =
     (let widening = wideningDuration p;
          factor = reductionFactor p;
          fadeInTime = jmax (Num 0.01) (widening * Num 0.5);
          fadeOutTime = jmax (Num 0.02) (widening * Num 1.5)
      in [CancelScheduledValues (lookAheadTime - widening * Num 2),
          SetValueAtTime (Num 1) (lookAheadTime - fadeInTime),
          LinearRampToValueAtTime (jmax (Num 0.1) factor) lookAheadTime,
          SetValueAtTime (jmax (Num 0.1) factor) (lookAheadTime + widening),
          LinearRampToValueAtTime (Num 0.6) (lookAheadTime + widening + fadeOutTime * Num 0.3),
          LinearRampToValueAtTime (Num 0.85) (lookAheadTime + widening + fadeOutTime * Num 0.7),
          LinearRampToValueAtTime (Num 1) (lookAheadTime + widening + fadeOutTime)])"

definition fallbackRamp :: "jsnum \<Rightarrow> gainCall list" where
  "fallbackRamp lookAheadTime =
     [CancelScheduledValues lookAheadTime,
      SetValueAtTime (Num 0.3) lookAheadTime,
      LinearRampToValueAtTime (Num 1) (lookAheadTime + Num 0.05)]"

text \<open>
  \<^verbatim>\<open>handleMouthClickDetected(confidence)\<close>, with the value of \<^verbatim>\<open>audioContext.currentTime\<close> as
  \<open>audioTime\<close> (seconds). \<^verbatim>\<open>wideningDuration\<close> is declared \<^verbatim>\<open>const\<close>, so the safety check
  that assigns it the 5 ms default throws a \<^verbatim>\<open>TypeError\<close> instead, before anything is
  scheduled. An exception of the \<^verbatim>\<open>catch\<close> block leaves the function before the click is
  counted. The argument \<open>conf\<close> is only logged.
\<close>

definition handleMouthClickDetected :: "host \<Rightarrow> real \<Rightarrow> state \<Rightarrow> jsnum \<Rightarrow> error option \<times> state" where
  "handleMouthClickDetected throws audioTime st conf =
     (let lookAheadTime = Num (audioTime + delayTime st);
          widening = wideningDuration (params st)
      in if \<not> isFinite widening \<or> widening \<le> Num 0 then (Some TypeError, st)
         else
           let (accepted, threw) =
                 schedule throws (clickGain st) (smoothGainRamp (params st) lookAheadTime)
           in if \<not> threw
              then (None, st\<lparr>clickCount := clickCount st + 1, clickGain := accepted\<rparr>)
              else
                let (accepted2, threw2) = schedule throws accepted (fallbackRamp lookAheadTime)
                in if threw2 then (Some ScheduleError, st\<lparr>clickGain := accepted2\<rparr>)
                   else (None, st\<lparr>clickCount := clickCount st + 1, clickGain := accepted2\<rparr>))"

text \<open>The gain values that a list of calls puts on the curve.\<close>

fun gainValues :: "gainCall list \<Rightarrow> jsnum list" where
  "gainValues [] = []"
| "gainValues (CancelScheduledValues t # cs) = gainValues cs"
| "gainValues (SetValueAtTime g t # cs) = g # gainValues cs"
| "gainValues (LinearRampToValueAtTime g t # cs) = g # gainValues cs"

section \<open>Detection\<close>

record detectionMethod =
  methodConfidence :: jsnum
  methodWeight :: jsnum
  methodDetected :: bool

text \<open>
  The local constants of \<^verbatim>\<open>detectMouthClick\<close>. The \<^verbatim>\<open>details\<close> object of the result holds
  sixteen of them; \<open>lpcOutlier\<close>, \<open>detectionMethods\<close>, \<open>finalConfidence\<close>,
  \<open>adjustedConfidence\<close> and \<open>isClickDetected\<close> are kept beside them.
\<close>

record analysis =
  loudness :: loudnessInfo
  errorRMS :: jsnum
  errorPeak :: jsnum
  lpcOutlier :: jsnum
  energies :: bandEnergies
  spectralFlux :: jsnum
  mouthBandRatio :: jsnum
  adaptiveTransientThreshold :: jsnum
  spectralCentroid :: jsnum
  broadbandRatio :: jsnum
  highFreqBurst :: jsnum
  maxAmplitude :: jsnum
  amplitudeSpike :: bool
  skewWeight :: jsnum
  adaptiveSpectralThreshold :: jsnum
  detectionMethods :: "detectionMethod list"
  finalConfidence :: jsnum
  speechProtection :: jsnum
  adjustedConfidence :: jsnum
  dynamicThreshold :: jsnum
  isClickDetected :: bool

record detection =
  isClick :: bool
  confidence :: jsnum
  lpcConfidence :: jsnum
  spectralConfidence :: jsnum
  details :: "analysis option"

text \<open>\<^verbatim>\<open>timeData.slice(-windowSize)\<close> with \<^verbatim>\<open>windowSize = Math.min(1024, timeData.length)\<close>.\<close>

definition analysisWindow :: "jsnum list \<Rightarrow> jsnum list" where
  "analysisWindow timeData =
     (let windowSize = min 1024 (length timeData)
      in drop (length timeData - windowSize) timeData)"

text \<open>The root mean square and the peak of the prediction error beyond the order.\<close>

definition predictionErrorRMS :: "jsnum list \<Rightarrow> jsnum" where
  "predictionErrorRMS predictionError =
     jsqrt (foldl (\<lambda>rms i. rms + item predictionError i * item predictionError i) (Num 0)
              [lpcOrder..<length predictionError]
            / Num (real_of_int (int (length predictionError) - int lpcOrder)))"

definition predictionErrorPeak :: "jsnum list \<Rightarrow> jsnum" where
  "predictionErrorPeak predictionError =
     foldl (\<lambda>peak i. jmax peak \<bar>item predictionError i\<bar>) (Num 0)
       [lpcOrder..<length predictionError]"

text \<open>
  A threshold of the source has the shape \<^verbatim>\<open>base / Math.pow(sensitivity, exponent) /
  Math.max(1.0, snr / divisor)\<close>.
\<close>

definition scaledThreshold :: "real \<Rightarrow> jsnum \<Rightarrow> real \<Rightarrow> jsnum \<Rightarrow> real \<Rightarrow> jsnum" where
  "scaledThreshold base s exponent ratio divisor =
     Num base / jpow s (Num exponent) / jmax (Num 1) (ratio / Num divisor)"

definition computeSpectralFlux :: "jsnum list \<Rightarrow> jsnum list \<Rightarrow> jsnum" where
  "computeSpectralFlux previous freqData =
     (if 0 < length previous
      then foldl (\<lambda>flux i. flux + jmax (Num 0) (item freqData i - item previous i)) (Num 0)
             [0..<length freqData] / Num (real (length freqData))
      else Num 0)"

definition computeMaxAmplitude :: "jsnum list \<Rightarrow> jsnum" where
  "computeMaxAmplitude timeData = foldl (\<lambda>m x. jmax m \<bar>x\<bar>) (Num 0) timeData"

text \<open>
  The weighted confidence over \<^verbatim>\<open>Object.values(detectionMethods)\<close>; \<open>fuseStep\<close> is the body
  of the \<^verbatim>\<open>forEach\<close>, on the pair of \<^verbatim>\<open>totalWeight\<close> and \<^verbatim>\<open>weightedConfidence\<close>.
\<close>

definition fuseStep :: "jsnum \<Rightarrow> jsnum \<times> jsnum \<Rightarrow> detectionMethod \<Rightarrow> jsnum \<times> jsnum" where
  "fuseStep skew totals m =
     (let adjustedWeight = methodWeight m * skew
      in (fst totals + adjustedWeight, snd totals + methodConfidence m * adjustedWeight))"

definition fuseConfidence :: "detectionMethod list \<Rightarrow> jsnum \<Rightarrow> jsnum" where
  "fuseConfidence methods skew =
     (let totals = foldl (fuseStep skew) (Num 0, Num 0) methods;
          totalWeight = fst totals;
          weightedConfidence = snd totals
      in if Num 0 < totalWeight then weightedConfidence / totalWeight else Num 0)"

text \<open>
  The local constants of \<^verbatim>\<open>detectMouthClick\<close>, one definition for each, in the order of
  the source. Each is a function of the state at entry and of the frame: the loudness
  update writes fields that the later steps read only through its result, the bin cache is
  the one \<open>initFreqBinCache\<close> leaves, and the previous spectrum is read before it is
  overwritten.
\<close>

definition frameLoudness :: "state \<Rightarrow> jsnum list \<Rightarrow> jsnum list \<Rightarrow> loudnessInfo" where
  "frameLoudness st timeData freqData = fst (updateDynamicLoudness st timeData freqData)"

definition framePredictionError :: "jsnum list \<Rightarrow> jsnum list" where
  "framePredictionError timeData =
     (let window = analysisWindow timeData;
          lpcResult = computeLPCCoefficients window lpcOrder
      in computePredictionError window (fst lpcResult))"

definition frameLpcConfidence :: "state \<Rightarrow> jsnum list \<Rightarrow> jsnum list \<Rightarrow> jsnum" where
  "frameLpcConfidence st timeData freqData =
     (let predictionError = framePredictionError timeData;
          adaptiveErrorThreshold =
            scaledThreshold thresholds_lpcError (sensitivity (params st)) 2.5
              (snr (frameLoudness st timeData freqData)) 10;
          lpcRmsConfidence = jmin (Num 2) (predictionErrorRMS predictionError / adaptiveErrorThreshold);
          lpcPeakConfidence =
            jmin (Num 2) (predictionErrorPeak predictionError / (adaptiveErrorThreshold * Num 3))
      in jmax lpcRmsConfidence lpcPeakConfidence)"

definition frameBandEnergy :: "state \<Rightarrow> jsnum list \<Rightarrow> band \<Rightarrow> jsnum" where
  "frameBandEnergy st freqData b =
     fst (calculateBandEnergy st freqData (fst (freqBands b)) (snd (freqBands b)) (freqWeights b))"

definition frameSpectralFlux :: "state \<Rightarrow> jsnum list \<Rightarrow> jsnum" where
  "frameSpectralFlux st freqData = computeSpectralFlux (previousSpectrum st) freqData"

definition frameMouthBandRatio :: "state \<Rightarrow> jsnum list \<Rightarrow> jsnum" where
  "frameMouthBandRatio st freqData =
     (let totalEnergy = frameBandEnergy st freqData Low + frameBandEnergy st freqData Mid
                        + frameBandEnergy st freqData High + Num 0.0001
      in frameBandEnergy st freqData Mouth / totalEnergy)"

definition frameTransientThreshold :: "state \<Rightarrow> jsnum list \<Rightarrow> jsnum list \<Rightarrow> jsnum" where
  "frameTransientThreshold st timeData freqData =
     scaledThreshold thresholds_transientRatio (sensitivity (params st)) 2
       (snr (frameLoudness st timeData freqData)) 15"

definition frameBroadbandRatio :: "state \<Rightarrow> jsnum list \<Rightarrow> jsnum" where
  "frameBroadbandRatio st freqData =
     (let centroid = calculateSpectralCentroid st freqData;
          spread = calculateSpectralSpread st freqData centroid
      in spread / (centroid + Num 1))"

definition frameHighFreqBurst :: "state \<Rightarrow> jsnum list \<Rightarrow> jsnum" where
  "frameHighFreqBurst st freqData =
     frameBandEnergy st freqData High
     / (frameBandEnergy st freqData Low + frameBandEnergy st freqData Mid + Num 0.0001)"

definition frameBurstDetected :: "state \<Rightarrow> jsnum list \<Rightarrow> jsnum list \<Rightarrow> bool" where
  "frameBurstDetected st timeData freqData =
     (scaledThreshold 2 (sensitivity (params st)) 1.8 (snr (frameLoudness st timeData freqData)) 10
      < frameHighFreqBurst st freqData)"

definition frameAmplitudeSpike :: "state \<Rightarrow> jsnum list \<Rightarrow> jsnum list \<Rightarrow> bool" where
  "frameAmplitudeSpike st timeData freqData =
     (scaledThreshold 0.1 (sensitivity (params st)) 2.3 (snr (frameLoudness st timeData freqData)) 20
      < computeMaxAmplitude timeData)"

definition frameSkewWeight :: "state \<Rightarrow> jsnum list \<Rightarrow> jsnum" where
  "frameSkewWeight st freqData = getFrequencyWeight st (calculateSpectralCentroid st freqData)"

definition frameSpectralThreshold :: "state \<Rightarrow> jsnum list \<Rightarrow> jsnum list \<Rightarrow> jsnum" where
  "frameSpectralThreshold st timeData freqData =
     scaledThreshold thresholds_spectralFlux (sensitivity (params st)) 2.2
       (snr (frameLoudness st timeData freqData)) 8"

definition frameMethods :: "state \<Rightarrow> jsnum list \<Rightarrow> jsnum list \<Rightarrow> detectionMethod list" where
  "frameMethods st timeData freqData =
     [\<lparr>methodConfidence = frameLpcConfidence st timeData freqData, methodWeight = Num 0.35,
       methodDetected = (Num 0.4 < frameLpcConfidence st timeData freqData)\<rparr>,
      \<lparr>methodConfidence =
         jmin (Num 2) (frameSpectralFlux st freqData / frameSpectralThreshold st timeData freqData),
       methodWeight = Num 0.25,
       methodDetected = (frameSpectralThreshold st timeData freqData < frameSpectralFlux st freqData)\<rparr>,
      \<lparr>methodConfidence =
         jmin (Num 2) (frameMouthBandRatio st freqData / frameTransientThreshold st timeData freqData),
       methodWeight = Num 0.2,
       methodDetected =
         (frameTransientThreshold st timeData freqData < frameMouthBandRatio st freqData)\<rparr>,
      \<lparr>methodConfidence = jmin (Num 2) (frameHighFreqBurst st freqData / Num 2),
       methodWeight = Num 0.15,
       methodDetected = frameBurstDetected st timeData freqData\<rparr>,
      \<lparr>methodConfidence = (if frameAmplitudeSpike st timeData freqData then Num 1.5 else Num 0),
       methodWeight = Num 0.05,
       methodDetected = frameAmplitudeSpike st timeData freqData\<rparr>]"

definition frameFinalConfidence :: "state \<Rightarrow> jsnum list \<Rightarrow> jsnum list \<Rightarrow> jsnum" where
  "frameFinalConfidence st timeData freqData =
     fuseConfidence (frameMethods st timeData freqData) (frameSkewWeight st freqData)"

definition frameBands :: "state \<Rightarrow> jsnum list \<Rightarrow> bandEnergies" where
  "frameBands st freqData =
     \<lparr>low = frameBandEnergy st freqData Low, mid = frameBandEnergy st freqData Mid,
      high = frameBandEnergy st freqData High, mouth = frameBandEnergy st freqData Mouth\<rparr>"

definition frameSpeechProtection :: "state \<Rightarrow> jsnum list \<Rightarrow> jsnum list \<Rightarrow> jsnum" where
  "frameSpeechProtection st timeData freqData =
     checkSpeechProtection st timeData freqData (frameBands st freqData) * Num 0.6"

definition frameAdjustedConfidence :: "state \<Rightarrow> jsnum list \<Rightarrow> jsnum list \<Rightarrow> jsnum" where
  "frameAdjustedConfidence st timeData freqData =
     frameFinalConfidence st timeData freqData
     * (Num 1 - frameSpeechProtection st timeData freqData)"

definition frameDynamicThreshold :: "state \<Rightarrow> jsnum list \<Rightarrow> jsnum list \<Rightarrow> jsnum" where
  "frameDynamicThreshold st timeData freqData =
     (let confidenceSensitivity = jpow (sensitivity (params st)) (Num 1.5);
          scaledConfidenceThreshold = Num thresholds_confidenceThreshold / confidenceSensitivity
      in jmin (infoAdaptiveThreshold (frameLoudness st timeData freqData)) scaledConfidenceThreshold)"

definition frameIsClickDetected :: "state \<Rightarrow> jsnum list \<Rightarrow> jsnum list \<Rightarrow> bool" where
  "frameIsClickDetected st timeData freqData =
     (let confidenceSensitivity = jpow (sensitivity (params st)) (Num 1.5);
          lpc = frameLpcConfidence st timeData freqData
      in frameDynamicThreshold st timeData freqData < frameAdjustedConfidence st timeData freqData
         \<or> (Num 1.5 / confidenceSensitivity < lpc
              \<and> frameSpectralThreshold st timeData freqData < frameSpectralFlux st freqData)
         \<or> (frameAmplitudeSpike st timeData freqData
              \<and> Num 0.5 / jsqrt confidenceSensitivity < frameMouthBandRatio st freqData
              \<and> Num 1 / confidenceSensitivity < lpc))"

definition analyseFrame :: "state \<Rightarrow> jsnum list \<Rightarrow> jsnum list \<Rightarrow> analysis" where
  "analyseFrame st timeData freqData =
     \<lparr>loudness = frameLoudness st timeData freqData,
      errorRMS = predictionErrorRMS (framePredictionError timeData),
      errorPeak = predictionErrorPeak (framePredictionError timeData),
      lpcOutlier = frameLpcConfidence st timeData freqData,
      energies = frameBands st freqData,
      spectralFlux = frameSpectralFlux st freqData,
      mouthBandRatio = frameMouthBandRatio st freqData,
      adaptiveTransientThreshold = frameTransientThreshold st timeData freqData,
      spectralCentroid = calculateSpectralCentroid st freqData,
      broadbandRatio = frameBroadbandRatio st freqData,
      highFreqBurst = frameHighFreqBurst st freqData,
      maxAmplitude = computeMaxAmplitude timeData,
      amplitudeSpike = frameAmplitudeSpike st timeData freqData,
      skewWeight = frameSkewWeight st freqData,
      adaptiveSpectralThreshold = frameSpectralThreshold st timeData freqData,
      detectionMethods = frameMethods st timeData freqData,
      finalConfidence = frameFinalConfidence st timeData freqData,
      speechProtection = frameSpeechProtection st timeData freqData,
      adjustedConfidence = frameAdjustedConfidence st timeData freqData,
      dynamicThreshold = frameDynamicThreshold st timeData freqData,
      isClickDetected = frameIsClickDetected st timeData freqData\<rparr>"

text \<open>The loop that copies the frame into \<^verbatim>\<open>this.circularBuffer\<close>.\<close>

definition writeCircularBuffer :: "state \<Rightarrow> jsnum list \<Rightarrow> state" where
  "writeCircularBuffer st timeData =
     foldl (\<lambda>st x. st\<lparr>circularBuffer := (circularBuffer st)[bufferIndex st := x],
                        bufferIndex := (bufferIndex st + 1) mod bufferSize st\<rparr>)
       st timeData"

text \<open>
  \<^verbatim>\<open>detectMouthClick(timeData, freqData)\<close>, with the host of the gain automation, the value of
  \<^verbatim>\<open>performance.now()\<close> and the value of \<^verbatim>\<open>audioContext.currentTime\<close> as arguments. The result
  is the returned object or the exception that leaves the function, with the state reached.
  \<^verbatim>\<open>this.previousSpectrum.set(freqData)\<close> throws a \<^verbatim>\<open>RangeError\<close> when the frame is longer than
  the buffer.
\<close>

definition detectMouthClick ::
  "host \<Rightarrow> real \<Rightarrow> real \<Rightarrow> state \<Rightarrow> jsnum list \<Rightarrow> jsnum list \<Rightarrow> (error + detection) \<times> state" where
  "detectMouthClick throws currentTime audioTime st timeData freqData =
     (if \<not> processingEnabled st
      then (Inr \<lparr>isClick = False, confidence = Num 0, lpcConfidence = Num 0,
                 spectralConfidence = Num 0, details = None\<rparr>, st)
      else
        let a = analyseFrame st timeData freqData;
            st1 = snd (updateDynamicLoudness st timeData freqData);
            st2 = writeCircularBuffer st1 timeData;
            st3 = initFreqBinCache st2
        in if length (previousSpectrum st3) < length freqData then (Inl RangeError, st3)
           else
             let st4 = st3\<lparr>previousSpectrum :=
                            freqData @ drop (length freqData) (previousSpectrum st3)\<rparr>;
                 (admitted, st5) =
                   shouldProcessClick currentTime st4 (isClickDetected a) (adjustedConfidence a);
                 result = \<lparr>isClick = admitted, confidence = adjustedConfidence a,
                            lpcConfidence = lpcOutlier a, spectralConfidence = finalConfidence a,
                            details = Some a\<rparr>
             in if admitted
                then (case handleMouthClickDetected throws audioTime st5 (adjustedConfidence a) of
                        (Some e, st6) \<Rightarrow> (Inl e, st6)
                      | (None, st6) \<Rightarrow> (Inr result, st6))
                else (Inr result, st5))"

section \<open>Configuration\<close>

text \<open>
  The setters, \<^verbatim>\<open>setMode(mode)\<close> and \<^verbatim>\<open>updateParameters(newParams)\<close>. The subtraction of
  \<^verbatim>\<open>setMode\<close> is exact, as all finite arithmetic here. A double rounds the difference,
  which moves the stored skew by at most one rounding step: a stored skew one step above
  -0.1 reaches the floor -0.3 at the first call already. No statement below is about
  where that boundary lies.
\<close>

definition setSensitivity :: "state \<Rightarrow> jsnum \<Rightarrow> state" where
  "setSensitivity st x = st\<lparr>params := (params st)\<lparr>sensitivity := jmax (Num 0.1) (jmin (Num 2) x)\<rparr>\<rparr>"

definition setFrequencySkew :: "state \<Rightarrow> jsnum \<Rightarrow> state" where
  "setFrequencySkew st x =
     st\<lparr>params := (params st)\<lparr>frequencySkew := jmax (Num (- 1)) (jmin (Num 1) x)\<rparr>\<rparr>"

definition setClickWidening :: "state \<Rightarrow> jsnum \<Rightarrow> state" where
  "setClickWidening st x =
     st\<lparr>params := (params st)\<lparr>clickWidening := jmax (Num 1) (jmin (Num 20) x)\<rparr>\<rparr>"

definition setReductionAmount :: "state \<Rightarrow> jsnum \<Rightarrow> state" where
  "setReductionAmount st x =
     st\<lparr>params := (params st)\<lparr>reductionAmount := jmax (Num (- 60)) (jmin (Num 0) x)\<rparr>\<rparr>"

definition setMode :: "state \<Rightarrow> string \<Rightarrow> state" where
  "setMode st m =
     (if m = ''click'' \<or> m = ''smack''
      then
        let p = (params st)\<lparr>mode := m\<rparr>
        in if m = ''smack''
           then st\<lparr>params := p\<lparr>clickWidening := jmax (clickWidening p) (Num 8),
                               frequencySkew := jmax (Num (- 0.3)) (frequencySkew p - Num 0.2)\<rparr>\<rparr>
           else st\<lparr>params := p\<rparr>
      else st)"

text \<open>
  The argument of \<^verbatim>\<open>updateParameters\<close>: an object with any of the five tunable fields;
  \<^verbatim>\<open>Object.assign\<close> copies the fields that are present.
\<close>

record newParams =
  newSensitivity :: "jsnum option"
  newFrequencySkew :: "jsnum option"
  newClickWidening :: "jsnum option"
  newReductionAmount :: "jsnum option"
  newMode :: "string option"

definition updateParameters :: "state \<Rightarrow> newParams \<Rightarrow> state" where
  "updateParameters st new =
     st\<lparr>params :=
          \<lparr>sensitivity = (case newSensitivity new of Some x \<Rightarrow> x | None \<Rightarrow> sensitivity (params st)),
           frequencySkew =
             (case newFrequencySkew new of Some x \<Rightarrow> x | None \<Rightarrow> frequencySkew (params st)),
           clickWidening =
             (case newClickWidening new of Some x \<Rightarrow> x | None \<Rightarrow> clickWidening (params st)),
           reductionAmount =
             (case newReductionAmount new of Some x \<Rightarrow> x | None \<Rightarrow> reductionAmount (params st)),
           mode = (case newMode new of Some m \<Rightarrow> m | None \<Rightarrow> mode (params st))\<rparr>\<rparr>"

text \<open>
  The configuration messages of the popup, as the listener of \<^verbatim>\<open>chrome.runtime.onMessage\<close>
  dispatches them.
\<close>

datatype message =
    UpdateSensitivity jsnum
  | UpdateFrequencySkew jsnum
  | UpdateClickWidening jsnum
  | UpdateReductionAmount jsnum
  | UpdateMode string

fun onMessage :: "state \<Rightarrow> message \<Rightarrow> state" where
  "onMessage st (UpdateSensitivity x) = setSensitivity st x"
| "onMessage st (UpdateFrequencySkew x) = setFrequencySkew st x"
| "onMessage st (UpdateClickWidening x) = setClickWidening st x"
| "onMessage st (UpdateReductionAmount x) = setReductionAmount st x"
| "onMessage st (UpdateMode m) = setMode st m"

text \<open>The parameter ranges of the specification.\<close>

definition inRange :: "real \<Rightarrow> real \<Rightarrow> jsnum \<Rightarrow> bool" where
  "inRange lo hi x = (case x of Num r \<Rightarrow> lo \<le> r \<and> r \<le> hi | PosInf \<Rightarrow> False | NegInf \<Rightarrow> False | NaN \<Rightarrow> False)"

definition validParams :: "params \<Rightarrow> bool" where
  "validParams p =
     (inRange 0.1 2 (sensitivity p) \<and> inRange (- 1) 1 (frequencySkew p)
      \<and> inRange 1 20 (clickWidening p) \<and> inRange (- 60) 0 (reductionAmount p))"

section \<open>Comparing two runs\<close>

text \<open>
  \<open>noDecrease a b\<close>: the value \<open>b\<close> is not below \<open>a\<close>. Either both are the same value (which
  is the only way for a value that is not finite), or both are finite and \<open>a \<le> b\<close>.
\<close>

definition noDecrease :: "jsnum \<Rightarrow> jsnum \<Rightarrow> bool" where
  "noDecrease a b = (a = b \<or> (isFinite a \<and> isFinite b \<and> a \<le> b))"

text \<open>\<open>notNegative x\<close>: a finite \<open>x\<close> is at least 0.\<close>

definition notNegative :: "jsnum \<Rightarrow> bool" where
  "notNegative x = (case x of Num r \<Rightarrow> 0 \<le> r | PosInf \<Rightarrow> True | NegInf \<Rightarrow> True | NaN \<Rightarrow> True)"

text \<open>
  \<open>sameMethod m1 m2\<close>: two entries of the list of detection methods with the same finite weight
  that is not negative, the confidence of the second not below that of the first.
\<close>

definition sameMethod :: "detectionMethod \<Rightarrow> detectionMethod \<Rightarrow> bool" where
  "sameMethod m1 m2 = (methodWeight m1 = methodWeight m2 \<and> isFinite (methodWeight m1)
     \<and> notNegative (methodWeight m1) \<and> noDecrease (methodConfidence m1) (methodConfidence m2))"

section \<open>Streams of detection calls\<close>

text \<open>
  A call of \<^verbatim>\<open>shouldProcessClick\<close> as the rate limiter sees it: the clock, the decision and the
  confidence it is given, and the parameters in force (the configuration may change between
  two calls). \<open>limiterRun\<close> makes the calls in order and returns the clock values of the
  admitted ones, oldest first, with the state reached.
\<close>

type_synonym limiterCall = "real \<times> bool \<times> jsnum \<times> params"

fun limiterRun :: "state \<Rightarrow> limiterCall list \<Rightarrow> real list \<times> state" where
  "limiterRun st [] = ([], st)"
| "limiterRun st (c # calls) =
     (case c of (currentTime, isDetected, conf, p) \<Rightarrow>
        (case shouldProcessClick currentTime (st\<lparr>params := p\<rparr>) isDetected conf of
           (admitted, st1) \<Rightarrow>
             (case limiterRun st1 calls of
                (later, st2) \<Rightarrow> ((if admitted then [currentTime] else []) @ later, st2))))"

text \<open>The events whose time lies in the second that ends at \<open>T\<close> (milliseconds).\<close>

definition inTrailingSecond :: "real \<Rightarrow> real list \<Rightarrow> real list" where
  "inTrailingSecond T events = filter (\<lambda>t. T - 1000 < t \<and> t \<le> T) events"

section \<open>Inputs used in examples\<close>

text \<open>
  A host that accepts every call, a host that refuses every call, and the engine as the
  constructor leaves it at 48 kHz, once with processing switched on.
\<close>

definition acceptingHost :: host where
  "acceptingHost accepted c = False"

definition refusingHost :: host where
  "refusingHost accepted c = True"

definition enabledEngine :: state where
  "enabledEngine = (constructor 48000)\<lparr>processingEnabled := True\<rparr>"

text \<open>
  An enabled engine with the reduction (in dB) and the widening (in ms) set, and a host that
  refuses a ramp to a gain below 0.3 and accepts every other call.
\<close>

definition tunedEngine :: "real \<Rightarrow> real \<Rightarrow> state" where
  "tunedEngine reduction widening =
     enabledEngine\<lparr>params := initialParams\<lparr>clickWidening := Num widening,
                                               reductionAmount := Num reduction\<rparr>\<rparr>"

definition faultyHost :: host where
  "faultyHost accepted c =
     (case c of
        LinearRampToValueAtTime g t \<Rightarrow> g < Num 0.3
      | SetValueAtTime g t \<Rightarrow> False
      | CancelScheduledValues t \<Rightarrow> False)"



text \<open>A frame of 4096 samples of amplitude 0.00001, and a frame with samples that are not finite.\<close>

definition quietFrame :: "jsnum list" where
  "quietFrame = replicate 4096 (Num 0.00001)"

definition brokenFrame :: "jsnum list" where
  "brokenFrame = [NaN, PosInf, Num 0, NegInf]"

text \<open>A frame of 4096 samples of silence, and a spectrum of 4096 bins at -40 dB.\<close>

definition silentFrame :: "jsnum list" where
  "silentFrame = replicate 4096 (Num 0)"

definition flatSpectrum :: "jsnum list" where
  "flatSpectrum = replicate 4096 (Num (- 40))"

text \<open>An enabled engine whose previous spectrum is at -100 dB in every bin.\<close>

definition primedEngine :: state where
  "primedEngine = enabledEngine\<lparr>previousSpectrum := replicate 4096 (Num (- 100))\<rparr>"


text \<open>
  Six detections of confidence 1 within a quarter of a second, under the constructor's
  parameters.
\<close>

definition burstCalls :: "limiterCall list" where
  "burstCalls =
     [(1000, True, Num 1, initialParams), (1050, True, Num 1, initialParams),
      (1100, True, Num 1, initialParams), (1125, True, Num 1, initialParams),
      (1200, True, Num 1, initialParams), (1250, True, Num 1, initialParams)]"

section \<open>Facts about JavaScript numbers\<close>

lemma jmax_Num [simp]: "jmax (Num a) (Num b) = Num (max a b)"
  by (simp add: max_def)

lemma jmin_Num [simp]: "jmin (Num a) (Num b) = Num (min a b)"
  by (simp add: min_def)

lemma minus_Num [simp]: "Num a - Num b = Num (a - b)"
  by (simp add: minus_jsnum_def)

lemma isFinite_iff: "isFinite x \<longleftrightarrow> (\<exists>r. x = Num r)"
  by (cases x) simp_all

lemma inRange_iff: "inRange lo hi x \<longleftrightarrow> isFinite x \<and> Num lo \<le> x \<and> x \<le> Num hi"
  by (cases x) (simp_all add: inRange_def)

section \<open>The gain curve\<close>

lemma reductionFactor_cases:
  "reductionFactor p =
     (case reductionAmount p of
        Num r \<Rightarrow> if r \<le> - 60 then Num 0.0001 else Num (10 powr (r / 20))
      | PosInf \<Rightarrow> Num 0.0001
      | NegInf \<Rightarrow> Num 0.0001
      | NaN \<Rightarrow> Num 0.0001)"
  by (cases "reductionAmount p") (simp_all add: reductionFactor_def Let_def)

lemma reductionFactor_valid:
  assumes "inRange (- 60) 0 (reductionAmount p)"
  shows "inRange 0.0001 1 (reductionFactor p)"
proof -
  from assms obtain r where r: "reductionAmount p = Num r" "- 60 \<le> r" "r \<le> 0"
    by (cases "reductionAmount p") (auto simp: inRange_def)
  show ?thesis
  proof (cases "r \<le> - 60")
    case True
    with r show ?thesis by (simp add: reductionFactor_cases inRange_def)
  next
    case False
    have "10 powr (r / 20) \<le> (10::real) powr 0" using r by (intro powr_mono) auto
    moreover have "(10::real) powr (- 3) \<le> 10 powr (r / 20)" using r by (intro powr_mono) auto
    moreover have "(10::real) powr (- 3) = 1 / 1000" by (simp add: powr_minus_divide)
    ultimately show ?thesis using r False by (simp add: reductionFactor_cases inRange_def)
  qed
qed

lemma schedule_extends:
  "schedule throws acc cs = (acc', b) \<Longrightarrow> \<exists>new. acc' = acc @ new \<and> set new \<subseteq> set cs"
proof (induction cs arbitrary: acc)
  case Nil
  then show ?case by simp
next
  case (Cons c cs)
  show ?case
  proof (cases "throws acc c")
    case True
    with Cons.prems show ?thesis by simp
  next
    case False
    with Cons.prems have "schedule throws (acc @ [c]) cs = (acc', b)" by simp
    from Cons.IH[OF this] obtain new where "acc' = (acc @ [c]) @ new" "set new \<subseteq> set cs"
      by blast
    then have "acc' = acc @ (c # new) \<and> set (c # new) \<subseteq> set (c # cs)" by auto
    then show ?thesis by blast
  qed
qed

lemma set_gainValues:
  "set (gainValues cs) =
     {g. \<exists>t. SetValueAtTime g t \<in> set cs \<or> LinearRampToValueAtTime g t \<in> set cs}"
  by (induction cs rule: gainValues.induct) auto

lemma gainValues_append: "gainValues (xs @ ys) = gainValues xs @ gainValues ys"
  by (induction xs rule: gainValues.induct) simp_all

lemma smoothGainRamp_gains:
  assumes "inRange (- 60) 0 (reductionAmount p)"
    and "g \<in> set (gainValues (smoothGainRamp p t))"
  shows "inRange 0.0001 1 g"
proof -
  have "inRange 0.0001 1 (reductionFactor p)" using assms(1) by (rule reductionFactor_valid)
  then have "inRange 0.0001 1 (jmax (Num 0.1) (reductionFactor p))"
    by (cases "reductionFactor p") (auto simp: inRange_def)
  moreover have "inRange 0.0001 1 (Num 1)" "inRange 0.0001 1 (Num 0.6)"
    "inRange 0.0001 1 (Num 0.85)"
    by (simp_all add: inRange_def)
  ultimately show ?thesis using assms(2) by (auto simp: smoothGainRamp_def Let_def)
qed

lemma fallbackRamp_gains:
  assumes "g \<in> set (gainValues (fallbackRamp t))"
  shows "inRange 0.0001 1 g"
  using assms by (auto simp: fallbackRamp_def inRange_def)

lemma handleMouthClickDetected_gains:
  assumes red: "inRange (- 60) 0 (reductionAmount (params st))"
    and run: "handleMouthClickDetected throws audioTime st conf = (outcome, st')"
  shows "\<exists>new. clickGain st' = clickGain st @ new
           \<and> (\<forall>g \<in> set (gainValues new). inRange 0.0001 1 g)"
proof -
  define t where "t = Num (audioTime + delayTime st)"
  let ?bad = "\<not> isFinite (wideningDuration (params st)) \<or> wideningDuration (params st) \<le> Num 0"
  show ?thesis
  proof (cases ?bad)
    case True
    with run have "st' = st" by (auto simp: handleMouthClickDetected_def Let_def)
    then show ?thesis by simp
  next
    case good: False
    obtain acc1 b1 where
      s1: "schedule throws (clickGain st) (smoothGainRamp (params st) t) = (acc1, b1)"
      by (cases "schedule throws (clickGain st) (smoothGainRamp (params st) t)") auto
    from schedule_extends[OF s1] obtain new1 where
      n1: "acc1 = clickGain st @ new1" "set new1 \<subseteq> set (smoothGainRamp (params st) t)"
      by blast
    have g1: "inRange 0.0001 1 g" if "g \<in> set (gainValues new1)" for g
      using that n1(2) smoothGainRamp_gains[OF red, of g t] by (auto simp: set_gainValues)
    show ?thesis
    proof (cases b1)
      case False
      with run s1 good have "clickGain st' = acc1"
        by (auto simp: handleMouthClickDetected_def Let_def t_def)
      with n1 g1 show ?thesis by blast
    next
      case True
      obtain acc2 b2 where s2: "schedule throws acc1 (fallbackRamp t) = (acc2, b2)"
        by (cases "schedule throws acc1 (fallbackRamp t)") auto
      from schedule_extends[OF s2] obtain new2 where
        n2: "acc2 = acc1 @ new2" "set new2 \<subseteq> set (fallbackRamp t)" by blast
      have g2: "inRange 0.0001 1 g" if "g \<in> set (gainValues new2)" for g
        using that n2(2) fallbackRamp_gains[of g t] by (auto simp: set_gainValues)
      from run s1 s2 True good have "clickGain st' = acc2"
        by (auto simp: handleMouthClickDetected_def Let_def t_def split: if_splits)
      then have "clickGain st' = clickGain st @ (new1 @ new2)" using n1 n2 by simp
      moreover have "\<forall>g \<in> set (gainValues (new1 @ new2)). inRange 0.0001 1 g"
        using g1 g2 by (auto simp: gainValues_append)
      ultimately show ?thesis by blast
    qed
  qed
qed

text \<open>
  Claim C1. Under a valid configuration, whatever the confidence, the time and the host (so
  whether the smooth ramp is accepted whole, or the host throws part way and the fallback
  of the \<^verbatim>\<open>catch\<close> block is scheduled, or that throws too), the calls that
  \<^verbatim>\<open>handleMouthClickDetected\<close> adds to the gain automation carry only finite gain values
  between 0.0001 and 1.
\<close>

theorem scheduled_gains_in_range:
  assumes "validParams (params st)"
  shows "\<exists>new. clickGain (snd (handleMouthClickDetected throws audioTime st conf))
                 = clickGain st @ new
           \<and> (\<forall>g \<in> set (gainValues new). isFinite g \<and> Num 0.0001 \<le> g \<and> g \<le> Num 1)"
proof -
  have red: "inRange (- 60) 0 (reductionAmount (params st))"
    using assms by (simp add: validParams_def)
  obtain outcome st' where
    run: "handleMouthClickDetected throws audioTime st conf = (outcome, st')"
    by (cases "handleMouthClickDetected throws audioTime st conf") auto
  from handleMouthClickDetected_gains[OF red run] show ?thesis
    by (simp add: run inRange_iff)
qed

theorem scheduled_gains_in_range_witness:
  "validParams (params (tunedEngine 0 1)) \<and> validParams (params (tunedEngine (- 60) 20))
   \<and> gainValues (clickGain (snd (handleMouthClickDetected acceptingHost 1 (tunedEngine 0 1) (Num 0.7))))
       = [Num 1, Num 1, Num 1, Num 0.6, Num 0.85, Num 1]
   \<and> gainValues (clickGain (snd (handleMouthClickDetected acceptingHost 1 (tunedEngine (- 60) 20) (Num 0.7))))
       = [Num 1, Num 0.1, Num 0.1, Num 0.6, Num 0.85, Num 1]
   \<and> gainValues (clickGain (snd (handleMouthClickDetected faultyHost 1 (tunedEngine (- 60) 20) (Num 0.7))))
       = [Num 1, Num 0.3, Num 1]
   \<and> list_all (\<lambda>g. isFinite g \<and> Num 0.0001 \<le> g \<and> g \<le> Num 1)
        (gainValues (clickGain (snd (handleMouthClickDetected acceptingHost 1 (tunedEngine 0 1) (Num 0.7)))))
   \<and> list_all (\<lambda>g. isFinite g \<and> Num 0.0001 \<le> g \<and> g \<le> Num 1)
        (gainValues (clickGain (snd (handleMouthClickDetected acceptingHost 1 (tunedEngine (- 60) 20) (Num 0.7)))))
   \<and> list_all (\<lambda>g. isFinite g \<and> Num 0.0001 \<le> g \<and> g \<le> Num 1)
        (gainValues (clickGain (snd (handleMouthClickDetected faultyHost 1 (tunedEngine (- 60) 20) (Num 0.7)))))"
proof -
  have valid: "validParams (params (tunedEngine 0 1))" "validParams (params (tunedEngine (- 60) 20))"
    by (simp_all add: validParams_def tunedEngine_def initialParams_def inRange_def)
  have empty: "clickGain (tunedEngine r w) = []" for r w
    by (simp add: tunedEngine_def enabledEngine_def constructor_def)
  have ranged: "list_all (\<lambda>g. isFinite g \<and> Num 0.0001 \<le> g \<and> g \<le> Num 1)
        (gainValues (clickGain (snd (handleMouthClickDetected throws 1 (tunedEngine r w) (Num 0.7)))))"
    if "validParams (params (tunedEngine r w))" for throws r w
    using scheduled_gains_in_range[OF that, of throws 1 "Num 0.7"]
    by (auto simp: empty list_all_iff)
  have smooth0: "gainValues (clickGain (snd (handleMouthClickDetected acceptingHost 1 (tunedEngine 0 1) (Num 0.7))))
       = [Num 1, Num 1, Num 1, Num 0.6, Num 0.85, Num 1]"
    by (simp add: handleMouthClickDetected_def Let_def tunedEngine_def enabledEngine_def
        constructor_def initialParams_def wideningDuration_def reductionFactor_def
        smoothGainRamp_def acceptingHost_def minus_jsnum_def)
  have smooth60: "gainValues (clickGain (snd (handleMouthClickDetected acceptingHost 1 (tunedEngine (- 60) 20) (Num 0.7))))
       = [Num 1, Num 0.1, Num 0.1, Num 0.6, Num 0.85, Num 1]"
    by (simp add: handleMouthClickDetected_def Let_def tunedEngine_def enabledEngine_def
        constructor_def initialParams_def wideningDuration_def reductionFactor_def
        smoothGainRamp_def acceptingHost_def minus_jsnum_def)
  have fallback: "gainValues (clickGain (snd (handleMouthClickDetected faultyHost 1 (tunedEngine (- 60) 20) (Num 0.7))))
       = [Num 1, Num 0.3, Num 1]"
    by (simp add: handleMouthClickDetected_def Let_def tunedEngine_def enabledEngine_def
        constructor_def initialParams_def wideningDuration_def reductionFactor_def
        smoothGainRamp_def fallbackRamp_def faultyHost_def minus_jsnum_def)
  from valid ranged[OF valid(1), of acceptingHost] ranged[OF valid(2), of acceptingHost]
    ranged[OF valid(2), of faultyHost] smooth0 smooth60 fallback
  show ?thesis by blast
qed

text \<open>
  Claim C5. The resolved reduction factor is 0.0001 when the configured reduction is at most
  -60 dB and \<open>10 powr (r / 20)\<close> for a finite \<open>r\<close> above -60; a reduction that is not a
  finite number resolves to 0.0001 as well (for \<open>NaN\<close> and \<open>+Infinity\<close> through the safety
  check on the power). The resolved factor is always finite and positive, never zero.
\<close>

theorem reduction_factor_resolution:
  "reductionFactor p =
     (case reductionAmount p of
        Num r \<Rightarrow> if r \<le> - 60 then Num 0.0001 else Num (10 powr (r / 20))
      | PosInf \<Rightarrow> Num 0.0001
      | NegInf \<Rightarrow> Num 0.0001
      | NaN \<Rightarrow> Num 0.0001)
   \<and> isFinite (reductionFactor p) \<and> Num 0 < reductionFactor p"
  by (cases "reductionAmount p") (simp_all add: reductionFactor_cases)

theorem reduction_factor_resolution_witness:
  "reductionFactor initialParams = Num 0.0001
   \<and> reductionFactor (initialParams\<lparr>reductionAmount := Num (- 20)\<rparr>) = Num 0.1
   \<and> reductionFactor (initialParams\<lparr>reductionAmount := Num 0\<rparr>) = Num 1
   \<and> reductionFactor (initialParams\<lparr>reductionAmount := NaN\<rparr>) = Num 0.0001
   \<and> reductionFactor (initialParams\<lparr>reductionAmount := PosInf\<rparr>) = Num 0.0001"
  using reduction_factor_resolution[of initialParams]
    reduction_factor_resolution[of "initialParams\<lparr>reductionAmount := Num (- 20)\<rparr>"]
    reduction_factor_resolution[of "initialParams\<lparr>reductionAmount := Num 0\<rparr>"]
    reduction_factor_resolution[of "initialParams\<lparr>reductionAmount := NaN\<rparr>"]
    reduction_factor_resolution[of "initialParams\<lparr>reductionAmount := PosInf\<rparr>"]
  by (simp add: initialParams_def powr_minus_divide)

section \<open>Disabled processing\<close>

text \<open>
  Claim C10. While processing is disabled, \<^verbatim>\<open>detectMouthClick\<close> returns no click, confidence 0
  and zero LPC and spectral confidences with empty details, and the state it leaves is the
  state it found: loudness history, circular buffer, previous spectrum and rate limiter
  are untouched.
\<close>

theorem disabled_detection_changes_nothing:
  assumes "\<not> processingEnabled st"
  shows "detectMouthClick throws currentTime audioTime st timeData freqData =
           (Inr \<lparr>isClick = False, confidence = Num 0, lpcConfidence = Num 0,
                 spectralConfidence = Num 0, details = None\<rparr>, st)"
  using assms by (simp add: detectMouthClick_def)

theorem disabled_detection_changes_nothing_witness:
  "\<not> processingEnabled (constructor 48000)
   \<and> detectMouthClick acceptingHost 1000 1 (constructor 48000)
        (replicate 4096 (Num 1)) (replicate 4096 (Num 20)) =
       (Inr \<lparr>isClick = False, confidence = Num 0, lpcConfidence = Num 0,
             spectralConfidence = Num 0, details = None\<rparr>, constructor 48000)"
proof -
  have off: "\<not> processingEnabled (constructor 48000)"
    by (simp add: constructor_def)
  from disabled_detection_changes_nothing[OF off] off show ?thesis by simp
qed

section \<open>Configuration updates\<close>

lemma clamp_idem:
  "jmax (Num lo) (jmin (Num hi) (jmax (Num lo) (jmin (Num hi) x))) = jmax (Num lo) (jmin (Num hi) x)"
  by (cases x) (auto simp: max_def min_def)

lemma jmax_idem_right: "jmax (jmax x (Num c)) (Num c) = jmax x (Num c)"
  by (cases x) (auto simp: max_def)

text \<open>
  Where applying an update twice is applying it once: each numeric setter,
  \<^verbatim>\<open>updateParameters\<close>, and \<^verbatim>\<open>setMode\<close> with a mode other than smack. A second
  \<^verbatim>\<open>setMode('smack')\<close> keeps the mode and the widening of the first.
\<close>

lemma idempotent_updates:
  "setSensitivity (setSensitivity st x) x = setSensitivity st x
   \<and> setFrequencySkew (setFrequencySkew st x) x = setFrequencySkew st x
   \<and> setClickWidening (setClickWidening st x) x = setClickWidening st x
   \<and> setReductionAmount (setReductionAmount st x) x = setReductionAmount st x
   \<and> updateParameters (updateParameters st new) new = updateParameters st new
   \<and> (m \<noteq> ''smack'' \<longrightarrow> setMode (setMode st m) m = setMode st m)
   \<and> mode (params (setMode (setMode st ''smack'') ''smack'')) = mode (params (setMode st ''smack''))
   \<and> clickWidening (params (setMode (setMode st ''smack'') ''smack''))
       = clickWidening (params (setMode st ''smack''))"
proof (intro conjI impI)
  show "setSensitivity (setSensitivity st x) x = setSensitivity st x"
    by (simp add: setSensitivity_def clamp_idem)
  show "setFrequencySkew (setFrequencySkew st x) x = setFrequencySkew st x"
    by (simp add: setFrequencySkew_def clamp_idem)
  show "setClickWidening (setClickWidening st x) x = setClickWidening st x"
    by (simp add: setClickWidening_def clamp_idem)
  show "setReductionAmount (setReductionAmount st x) x = setReductionAmount st x"
    by (simp add: setReductionAmount_def clamp_idem)
  show "updateParameters (updateParameters st new) new = updateParameters st new"
    by (simp add: updateParameters_def split: option.splits)
  show "setMode (setMode st m) m = setMode st m" if "m \<noteq> ''smack''"
    using that by (simp add: setMode_def Let_def)
  show "mode (params (setMode (setMode st ''smack'') ''smack''))
        = mode (params (setMode st ''smack''))"
    by (simp add: setMode_def Let_def)
  show "clickWidening (params (setMode (setMode st ''smack'') ''smack''))
        = clickWidening (params (setMode st ''smack''))"
    by (simp add: setMode_def Let_def jmax_idem_right)
qed

text \<open>
  Claim C7. Applying the same update a second time should leave the stored configuration that
  one application leaves. \<^verbatim>\<open>setMode('smack')\<close> does not: it lowers the stored frequency
  skew by 0.2 at every call, down to -0.3. From the constructor's state one \<^verbatim>\<open>updateMode\<close>
  message with the value smack leaves the skew at -0.2 and a second one leaves it at -0.3;
  so does choosing smack, click and smack again, as a change to click restores nothing.
\<close>

theorem smack_twice_lowers_skew:
  "frequencySkew (params (constructor 48000)) = Num 0
   \<and> frequencySkew (params (onMessage (constructor 48000) (UpdateMode ''smack''))) = Num (- 0.2)
   \<and> frequencySkew
         (params (onMessage (onMessage (constructor 48000) (UpdateMode ''smack''))
                    (UpdateMode ''smack''))) = Num (- 0.3)
   \<and> frequencySkew
         (params (onMessage (onMessage (onMessage (constructor 48000) (UpdateMode ''smack''))
                               (UpdateMode ''click''))
                    (UpdateMode ''smack''))) = Num (- 0.3)
   \<and> setMode (setMode (constructor 48000) ''smack'') ''smack'' \<noteq> setMode (constructor 48000) ''smack''"
proof -
  have once: "frequencySkew (params (setMode (constructor 48000) ''smack'')) = Num (- 0.2)"
    by (simp add: setMode_def Let_def constructor_def initialParams_def)
  have twice: "frequencySkew (params (setMode (setMode (constructor 48000) ''smack'') ''smack''))
               = Num (- 0.3)"
    by (simp add: setMode_def Let_def constructor_def initialParams_def)
  have again: "frequencySkew
                 (params (setMode (setMode (setMode (constructor 48000) ''smack'') ''click'') ''smack''))
               = Num (- 0.3)"
    by (simp add: setMode_def Let_def constructor_def initialParams_def)
  have differ: "setMode (setMode (constructor 48000) ''smack'') ''smack''
                \<noteq> setMode (constructor 48000) ''smack''"
  proof
    assume "setMode (setMode (constructor 48000) ''smack'') ''smack''
            = setMode (constructor 48000) ''smack''"
    then have "frequencySkew (params (setMode (setMode (constructor 48000) ''smack'') ''smack''))
               = frequencySkew (params (setMode (constructor 48000) ''smack''))"
      by simp
    then show False by (simp add: once twice)
  qed
  show ?thesis
    using once twice again differ by (simp add: constructor_def initialParams_def)
qed










section \<open>Loudness and signal-to-noise ratio\<close>

lemma sumSquares_Num:
  "\<exists>b. foldl (\<lambda>rms x. if isFinite x then rms + x * x else rms) (Num a) timeData = Num b
        \<and> a \<le> b"
proof (induction timeData arbitrary: a)
  case Nil
  then show ?case by simp
next
  case (Cons x xs)
  show ?case
  proof (cases x)
    case (Num r)
    from Cons.IH[of "a + r * r"] obtain b where
      b: "foldl (\<lambda>rms x. if isFinite x then rms + x * x else rms) (Num (a + r * r)) xs = Num b"
        "a + r * r \<le> b"
      by blast
    have "a \<le> b" using b(2) zero_le_square[of r] by linarith
    with b(1) Num show ?thesis by auto
  qed (use Cons.IH[of a] in auto)
qed

lemma sumSquares_silent:
  "\<forall>x \<in> set timeData. x = Num 0 \<or> \<not> isFinite x \<Longrightarrow>
   foldl (\<lambda>rms x. if isFinite x then rms + x * x else rms) (Num 0) timeData = Num 0"
  by (induction timeData) auto

lemma sumSquares_replicate:
  "foldl (\<lambda>rms x. if isFinite x then rms + x * x else rms) (Num a) (replicate n (Num c))
     = Num (a + real n * (c * c))"
  by (induction n arbitrary: a) (simp_all add: algebra_simps)

lemma log10_eps10: "log 10 eps10 = - 10"
proof -
  have e: "eps10 = 10 powr (- 10)" by (simp add: eps10_def powr_minus_divide)
  show ?thesis unfolding e by (rule log_powr_cancel) simp_all
qed

lemma loudness_bounds:
  "\<exists>d. (if isFinite q \<and> Num 0 < q then Num 20 * jlog10 (jmax q (Num eps10)) else Num (- 60))
          = Num d
        \<and> - 200 \<le> d"
proof (cases "isFinite q \<and> Num 0 < q")
  case False
  then show ?thesis by auto
next
  case True
  then obtain r where r: "q = Num r" "0 < r" by (cases q) auto
  have pos: "0 < max r eps10" using r by simp
  have "log 10 eps10 \<le> log 10 (max r eps10)"
    by (rule log_mono) (auto simp: eps10_def)
  then have "- 200 \<le> 20 * log 10 (max r eps10)" by (simp add: log10_eps10)
  then show ?thesis using r pos True by auto
qed

lemma snr_clamp:
  assumes "isFinite a" "isFinite b"
  shows "inRange 0.1 60 (jmax (Num 0.1) (jmin (Num 60) (a - b)))"
  using assms by (cases a; cases b) (auto simp: inRange_def)

lemma snr_inRange: "inRange 0.1 60 (snr (fst (updateDynamicLoudness st timeData freqData)))"
  unfolding updateDynamicLoudness_def Let_def fst_conv loudnessInfo.select_convs
  by (rule snr_clamp) simp_all

lemma silent_loudness:
  assumes "\<forall>x \<in> set timeData. x = Num 0 \<or> \<not> isFinite x"
  shows "loudnessDb (fst (updateDynamicLoudness st timeData freqData)) = Num (- 60)"
proof (cases "timeData = []")
  case True
  then show ?thesis by (simp add: updateDynamicLoudness_def Let_def)
next
  case False
  then show ?thesis
    by (simp add: updateDynamicLoudness_def Let_def sumSquares_silent[OF assms])
qed

text \<open>
  Claim C9, as amended. For every frame, samples that are not finite included, and every
  state, the loudness is a finite number of decibels, at least -200 (the floor that the
  guard \<open>max rms 1e-10\<close> gives); it is -60 when every sample is zero or not finite. The
  signal-to-noise ratio is finite and lies between 0.1 and 60, and is what the state stores.
\<close>

theorem loudness_and_snr_bounds:
  "isFinite (loudnessDb (fst (updateDynamicLoudness st timeData freqData)))
   \<and> Num (- 200) \<le> loudnessDb (fst (updateDynamicLoudness st timeData freqData))
   \<and> ((\<forall>x \<in> set timeData. x = Num 0 \<or> \<not> isFinite x) \<longrightarrow>
        loudnessDb (fst (updateDynamicLoudness st timeData freqData)) = Num (- 60))
   \<and> isFinite (snr (fst (updateDynamicLoudness st timeData freqData)))
   \<and> Num 0.1 \<le> snr (fst (updateDynamicLoudness st timeData freqData))
   \<and> snr (fst (updateDynamicLoudness st timeData freqData)) \<le> Num 60
   \<and> signalToNoiseRatio (snd (updateDynamicLoudness st timeData freqData))
       = snr (fst (updateDynamicLoudness st timeData freqData))"
proof -
  have "\<exists>d. loudnessDb (fst (updateDynamicLoudness st timeData freqData)) = Num d \<and> - 200 \<le> d"
    unfolding updateDynamicLoudness_def Let_def fst_conv loudnessInfo.select_convs
    by (rule loudness_bounds)
  moreover have "signalToNoiseRatio (snd (updateDynamicLoudness st timeData freqData))
       = snr (fst (updateDynamicLoudness st timeData freqData))"
    by (simp add: updateDynamicLoudness_def Let_def)
  ultimately show ?thesis
    using snr_inRange[of st timeData freqData] silent_loudness[of timeData st freqData]
    by (auto simp: inRange_iff)
qed

theorem loudness_and_snr_bounds_witness:
  "list_all (\<lambda>x. x = Num 0 \<or> \<not> isFinite x) brokenFrame
   \<and> loudnessDb (fst (updateDynamicLoudness (constructor 48000) brokenFrame [])) = Num (- 60)
   \<and> isFinite (snr (fst (updateDynamicLoudness (constructor 48000) brokenFrame [])))
   \<and> Num 0.1 \<le> snr (fst (updateDynamicLoudness (constructor 48000) brokenFrame []))
   \<and> snr (fst (updateDynamicLoudness (constructor 48000) brokenFrame [])) \<le> Num 60"
proof -
  have silent: "\<forall>x \<in> set brokenFrame. x = Num 0 \<or> \<not> isFinite x"
    by (simp add: brokenFrame_def)
  have listed: "list_all (\<lambda>x. x = Num 0 \<or> \<not> isFinite x) brokenFrame"
    by (simp add: brokenFrame_def)
  from loudness_and_snr_bounds[of "constructor 48000" brokenFrame "[]"] silent listed
  show ?thesis by simp
qed

text \<open>
  The floor is not -60 dB: a frame of 4096 samples of amplitude 0.00001 has a root mean
  square of 0.00001 and a loudness of -100 dB.
\<close>

theorem quiet_frame_counterexample:
  "loudnessDb (fst (updateDynamicLoudness (constructor 48000) quietFrame [])) = Num (- 100)"
proof -
  have root: "sqrt (1 / 10000000000) = (1 / 100000 :: real)"
    by (rule real_sqrt_unique) (simp_all add: power2_eq_square)
  have "log 10 (10 powr (- 5)) = (- 5 :: real)"
    by (rule log_powr_cancel) simp_all
  then have lg: "log 10 (1 / 100000) = (- 5 :: real)"
    by (simp add: powr_minus_divide)
  show ?thesis
    by (simp add: updateDynamicLoudness_def Let_def quietFrame_def sumSquares_replicate eps10_def
        root lg)
qed

section \<open>Rate limiting of admitted events\<close>

lemma shouldProcessClick_cases:
  assumes "shouldProcessClick now st d c = (ok, st1)"
  shows "maxClicksPerSecond st1 = maxClicksPerSecond st \<and> minClickInterval st1 = minClickInterval st
    \<and> ((\<not> ok \<and> lastClickTime st1 = lastClickTime st
           \<and> (clickHistory st1 = clickHistory st
               \<or> clickHistory st1 = filter (\<lambda>time. now - time < 1000) (clickHistory st)))
        \<or> (ok \<and> lastClickTime st1 = now
            \<and> minClickInterval st \<le> now - lastClickTime st
            \<and> length (filter (\<lambda>time. now - time < 1000) (clickHistory st)) < maxClicksPerSecond st
            \<and> clickHistory st1 = filter (\<lambda>time. now - time < 1000) (clickHistory st) @ [now]))"
  using assms by (auto simp: shouldProcessClick_def Let_def split: if_splits)

lemma limiter_fields_params [simp]:
  "clickHistory (st\<lparr>params := p\<rparr>) = clickHistory st"
  "lastClickTime (st\<lparr>params := p\<rparr>) = lastClickTime st"
  "maxClicksPerSecond (st\<lparr>params := p\<rparr>) = maxClicksPerSecond st"
  "minClickInterval (st\<lparr>params := p\<rparr>) = minClickInterval st"
  by simp_all

lemma filter_window_filter:
  assumes "now \<le> (n::real)"
  shows "filter (\<lambda>t. n - t < 1000) (filter (\<lambda>t. now - t < 1000) xs) = filter (\<lambda>t. n - t < 1000) xs"
proof -
  have "filter (\<lambda>t. n - t < 1000) (filter (\<lambda>t. now - t < 1000) xs)
        = filter (\<lambda>t. now - t < 1000 \<and> n - t < 1000) xs" by simp
  also have "\<dots> = filter (\<lambda>t. n - t < 1000) xs"
    using assms by (intro filter_cong) auto
  finally show ?thesis .
qed

lemma window_count_snoc:
  assumes old: "\<forall>t \<in> set pre. t \<le> now"
    and room: "length (filter (\<lambda>t. now - t < 1000) pre) < m"
    and before: "\<forall>T. length (inTrailingSecond T pre) \<le> m"
  shows "length (inTrailingSecond T (pre @ [now])) \<le> m"
proof (cases "T - 1000 < now \<and> now \<le> T")
  case False
  then have "inTrailingSecond T (pre @ [now]) = inTrailingSecond T pre"
    by (auto simp: inTrailingSecond_def)
  with before show ?thesis by simp
next
  case True
  have "length (filter (\<lambda>t. T - 1000 < t \<and> t \<le> T) pre) \<le> length (filter (\<lambda>t. now - t < 1000) pre)"
  proof -
    have "filter (\<lambda>t. T - 1000 < t \<and> t \<le> T) pre
          = filter (\<lambda>t. T - 1000 < t \<and> t \<le> T) (filter (\<lambda>t. now - t < 1000) pre)"
      using True by (auto intro!: filter_cong)
    then show ?thesis by (metis length_filter_le)
  qed
  with room True show ?thesis by (simp add: inTrailingSecond_def)
qed

lemma limiterRun_window:
  assumes "sorted (map fst calls)"
    and "\<forall>c \<in> set calls. tlast \<le> fst c"
    and "\<forall>t \<in> set pre. t \<le> tlast"
    and "\<forall>n \<ge> tlast. filter (\<lambda>t. n - t < 1000) (clickHistory st) = filter (\<lambda>t. n - t < 1000) pre"
    and "\<forall>T. length (inTrailingSecond T pre) \<le> maxClicksPerSecond st"
    and "length (clickHistory st) \<le> maxClicksPerSecond st"
  shows "(\<forall>T. length (inTrailingSecond T (pre @ fst (limiterRun st calls))) \<le> maxClicksPerSecond st)
       \<and> length (clickHistory (snd (limiterRun st calls))) \<le> maxClicksPerSecond st"
  using assms
proof (induction calls arbitrary: st pre tlast)
  case Nil
  then show ?case by simp
next
  case (Cons call calls)
  obtain now d c p where call: "call = (now, d, c, p)" by (cases call) auto
  obtain ok st1 where step: "shouldProcessClick now (st\<lparr>params := p\<rparr>) d c = (ok, st1)"
    by (cases "shouldProcessClick now (st\<lparr>params := p\<rparr>) d c") auto
  have now: "tlast \<le> now" using Cons.prems(2) call by simp
  note facts = shouldProcessClick_cases[OF step, simplified]
  define pre' where "pre' = pre @ (if ok then [now] else [])"
  have m: "maxClicksPerSecond st1 = maxClicksPerSecond st" using facts by simp
  have sorted': "sorted (map fst calls)" using Cons.prems(1) by simp
  have later: "\<forall>c \<in> set calls. now \<le> fst c" using Cons.prems(1) call by auto
  have old: "\<forall>t \<in> set pre. t \<le> now" using Cons.prems(3) now by auto
  have old': "\<forall>t \<in> set pre'. t \<le> now" using old by (auto simp: pre'_def)
  have hist: "filter (\<lambda>t. n - t < 1000) (clickHistory st1) = filter (\<lambda>t. n - t < 1000) pre'"
    if "now \<le> n" for n
  proof -
    have n: "tlast \<le> n" using that now by simp
    have base: "filter (\<lambda>t. n - t < 1000) (clickHistory st) = filter (\<lambda>t. n - t < 1000) pre"
      using Cons.prems(4) n by blast
    from facts show ?thesis
    proof (elim conjE disjE)
      assume "\<not> ok" "clickHistory st1 = clickHistory st"
      then show ?thesis using base by (simp add: pre'_def)
    next
      assume "\<not> ok" "clickHistory st1 = filter (\<lambda>time. now - time < 1000) (clickHistory st)"
      then show ?thesis using base filter_window_filter[OF that, of "clickHistory st"]
        by (simp add: pre'_def)
    next
      assume "ok" "clickHistory st1 = filter (\<lambda>time. now - time < 1000) (clickHistory st) @ [now]"
      then show ?thesis using base filter_window_filter[OF that, of "clickHistory st"]
        by (simp add: pre'_def)
    qed
  qed
  have win: "\<forall>T. length (inTrailingSecond T pre') \<le> maxClicksPerSecond st1"
  proof (cases ok)
    case False
    then show ?thesis using Cons.prems(5) m by (simp add: pre'_def)
  next
    case True
    with facts have room: "length (filter (\<lambda>time. now - time < 1000) (clickHistory st)) < maxClicksPerSecond st"
      by auto
    have "filter (\<lambda>t. now - t < 1000) (clickHistory st) = filter (\<lambda>t. now - t < 1000) pre"
      using Cons.prems(4) now by blast
    with room have "length (filter (\<lambda>t. now - t < 1000) pre) < maxClicksPerSecond st" by simp
    from window_count_snoc[OF old this Cons.prems(5)] True m show ?thesis
      by (simp add: pre'_def)
  qed
  have len: "length (clickHistory st1) \<le> maxClicksPerSecond st1"
  proof -
    have "length (filter (\<lambda>time. now - time < 1000) (clickHistory st)) \<le> maxClicksPerSecond st"
      by (rule le_trans[OF length_filter_le Cons.prems(6)])
    with facts Cons.prems(6) m show ?thesis by auto
  qed
  from Cons.IH[OF sorted' later old' _ win len] hist
  have "(\<forall>T. length (inTrailingSecond T (pre' @ fst (limiterRun st1 calls))) \<le> maxClicksPerSecond st1)
       \<and> length (clickHistory (snd (limiterRun st1 calls))) \<le> maxClicksPerSecond st1"
    by blast
  moreover have "pre @ fst (limiterRun st (call # calls)) = pre' @ fst (limiterRun st1 calls)"
    "snd (limiterRun st (call # calls)) = snd (limiterRun st1 calls)"
    using call step by (simp_all add: pre'_def split: prod.splits)
  ultimately show ?case using m by simp
qed

text \<open>
  Claim C3. From a state with an empty window, along any stream of calls whose clock does
  not run backwards (as \<^verbatim>\<open>performance.now()\<close> guarantees), whatever the decisions, the
  confidences and the parameters in force: for every instant \<open>T\<close>, the admitted events in
  the second that ends at \<open>T\<close> (later than \<open>T - 1000\<close>, not later than \<open>T\<close>) number at most
  \<^verbatim>\<open>maxClicksPerSecond\<close>, and the stored window never holds more than that.
\<close>

theorem rate_limit_window:
  assumes "clickHistory st = []" and "sorted (map fst calls)"
  shows "length (inTrailingSecond T (fst (limiterRun st calls))) \<le> maxClicksPerSecond st
       \<and> length (clickHistory (snd (limiterRun st calls))) \<le> maxClicksPerSecond st"
proof (cases calls)
  case Nil
  with assms show ?thesis by (simp add: inTrailingSecond_def)
next
  case (Cons c cs)
  define tlast where "tlast = fst c"
  have a: "\<forall>c \<in> set calls. tlast \<le> fst c" using assms(2) Cons by (auto simp: tlast_def)
  from limiterRun_window[OF assms(2) a, of "[]" st] assms(1)
  show ?thesis by (simp add: inTrailingSecond_def)
qed

lemma burst_admitted: "fst (limiterRun (constructor 48000) burstCalls) = [1000, 1125, 1250]"
  by (simp add: burstCalls_def constructor_def initialParams_def shouldProcessClick_def
      requiredConfidence_def Let_def)

theorem rate_limit_window_witness:
  "clickHistory (constructor 48000) = [] \<and> sorted (map fst burstCalls)
   \<and> length (inTrailingSecond 1250 (fst (limiterRun (constructor 48000) burstCalls)))
       \<le> maxClicksPerSecond (constructor 48000)
   \<and> length (clickHistory (snd (limiterRun (constructor 48000) burstCalls)))
       \<le> maxClicksPerSecond (constructor 48000)"
proof -
  have empty: "clickHistory (constructor 48000) = []" by (simp add: constructor_def)
  have clock: "sorted (map fst burstCalls)" by (simp add: burstCalls_def)
  from rate_limit_window[OF empty clock, of 1250] empty clock show ?thesis by simp
qed

lemma limiterRun_spacing:
  assumes "0 \<le> minClickInterval st"
  shows "sorted_wrt (\<lambda>a b. minClickInterval st \<le> b - a) (fst (limiterRun st calls))
       \<and> (\<forall>t \<in> set (fst (limiterRun st calls)). minClickInterval st \<le> t - lastClickTime st)"
  using assms
proof (induction calls arbitrary: st)
  case Nil
  then show ?case by simp
next
  case (Cons call calls)
  obtain now d c p where call: "call = (now, d, c, p)" by (cases call) auto
  obtain ok st1 where step: "shouldProcessClick now (st\<lparr>params := p\<rparr>) d c = (ok, st1)"
    by (cases "shouldProcessClick now (st\<lparr>params := p\<rparr>) d c") auto
  note facts = shouldProcessClick_cases[OF step, simplified]
  have mi: "minClickInterval st1 = minClickInterval st" using facts by simp
  from Cons.IH[of st1] Cons.prems mi
  have ih: "sorted_wrt (\<lambda>a b. minClickInterval st \<le> b - a) (fst (limiterRun st1 calls))"
    "\<forall>t \<in> set (fst (limiterRun st1 calls)). minClickInterval st \<le> t - lastClickTime st1"
    by simp_all
  have run: "fst (limiterRun st (call # calls)) = (if ok then [now] else []) @ fst (limiterRun st1 calls)"
    using call step by (simp split: prod.splits)
  show ?case
  proof (cases ok)
    case False
    with facts have "lastClickTime st1 = lastClickTime st" by auto
    with ih run False show ?thesis by simp
  next
    case True
    with facts have l: "lastClickTime st1 = now" "minClickInterval st \<le> now - lastClickTime st" by auto
    have "\<forall>t \<in> set (fst (limiterRun st1 calls)). minClickInterval st \<le> t - lastClickTime st"
      using ih(2) l Cons.prems by fastforce
    with ih l run True show ?thesis by simp
  qed
qed

text \<open>
  Claim C4. With a minimum interval that is not negative, any two events admitted along a
  stream of calls, whatever the clock, the decisions, the confidences and the parameters in
  force, lie at least \<^verbatim>\<open>minClickInterval\<close> apart: the later one minus the earlier one is at
  least the interval.
\<close>

theorem admitted_events_spacing:
  assumes "0 \<le> minClickInterval st" and "i < j" and "j < length (fst (limiterRun st calls))"
  shows "minClickInterval st \<le> fst (limiterRun st calls) ! j - fst (limiterRun st calls) ! i"
  using limiterRun_spacing[OF assms(1), of calls] assms(2,3)
  by (auto simp: sorted_wrt_iff_nth_less)

theorem admitted_events_spacing_witness:
  "0 \<le> minClickInterval (constructor 48000) \<and> (0::nat) < 2
   \<and> 2 < length (fst (limiterRun (constructor 48000) burstCalls))
   \<and> minClickInterval (constructor 48000)
       \<le> fst (limiterRun (constructor 48000) burstCalls) ! 2
          - fst (limiterRun (constructor 48000) burstCalls) ! 0"
proof -
  have interval: "0 \<le> minClickInterval (constructor 48000)" by (simp add: constructor_def)
  have two: "2 < length (fst (limiterRun (constructor 48000) burstCalls))"
    by (simp add: burst_admitted)
  have order: "(0::nat) < 2" by simp
  from admitted_events_spacing[OF interval order two] interval two show ?thesis by simp
qed

section \<open>Monotonicity in the sensitivity\<close>

subsection \<open>Order and sign of JavaScript numbers\<close>

lemma noDecrease_refl [simp]: "noDecrease a a"
  by (simp add: noDecrease_def)

lemma noDecrease_Num [simp]: "noDecrease (Num x) (Num y) \<longleftrightarrow> x \<le> y"
  by (auto simp: noDecrease_def)

lemma noDecrease_cases:
  assumes "noDecrease a b"
  obtains "a = b" | x y where "a = Num x" "b = Num y" "x \<le> y"
  using assms by (cases a; cases b) (auto simp: noDecrease_def)

lemma noDecrease_add:
  assumes "noDecrease a b" "noDecrease c d"
  shows "noDecrease (a + c) (b + d)"
  using assms(1)
proof (cases rule: noDecrease_cases)
  case 1
  from assms(2) show ?thesis
  proof (cases rule: noDecrease_cases)
    case 1
    with \<open>a = b\<close> show ?thesis by simp
  next
    case (2 x y)
    with \<open>a = b\<close> show ?thesis by (cases b) simp_all
  qed
next
  case (2 x y)
  from assms(2) show ?thesis
  proof (cases rule: noDecrease_cases)
    case 1
    with 2 show ?thesis by (cases d) simp_all
  next
    case (2 x' y')
    with \<open>a = Num x\<close> \<open>b = Num y\<close> \<open>x \<le> y\<close> show ?thesis by simp
  qed
qed

lemma noDecrease_mult_right:
  assumes "noDecrease a b" "0 \<le> k"
  shows "noDecrease (a * Num k) (b * Num k)"
  using assms(1)
proof (cases rule: noDecrease_cases)
  case 1
  then show ?thesis by simp
next
  case (2 x y)
  with assms(2) show ?thesis by (simp add: mult_right_mono)
qed

lemma noDecrease_div_right:
  assumes "noDecrease a b" "0 < k"
  shows "noDecrease (a / Num k) (b / Num k)"
  using assms(1)
proof (cases rule: noDecrease_cases)
  case 1
  then show ?thesis by simp
next
  case (2 x y)
  with assms(2) show ?thesis by (simp add: divide_right_mono)
qed

lemma noDecrease_jmax:
  assumes "noDecrease a b" "noDecrease c d"
  shows "noDecrease (jmax a c) (jmax b d)"
  using assms(1)
proof (cases rule: noDecrease_cases)
  case 1
  from assms(2) show ?thesis
  proof (cases rule: noDecrease_cases)
    case 1
    with \<open>a = b\<close> show ?thesis by simp
  next
    case (2 x y)
    with \<open>a = b\<close> show ?thesis by (cases b) auto
  qed
next
  case (2 x y)
  from assms(2) show ?thesis
  proof (cases rule: noDecrease_cases)
    case 1
    with 2 show ?thesis by (cases d) auto
  next
    case (2 x' y')
    with \<open>a = Num x\<close> \<open>b = Num y\<close> \<open>x \<le> y\<close> show ?thesis by auto
  qed
qed

lemma confidence_ratio_mono:
  assumes "notNegative x" "0 < t2" "t2 \<le> t1"
  shows "noDecrease (jmin (Num 2) (x / Num t1)) (jmin (Num 2) (x / Num t2))"
proof (cases x)
  case (Num r)
  with assms have "r / t1 \<le> r / t2" by (simp add: notNegative_def frac_le)
  with Num assms show ?thesis by (auto simp: min_def)
qed (use assms in auto)

lemma scaledThreshold_Num:
  assumes "0 < s" "0 < e" "0 < d"
  shows "scaledThreshold base (Num s) e (Num r) d = Num (base / s powr e / max 1 (r / d))"
proof -
  have "s powr e \<noteq> 0" using assms(1) by simp
  moreover have "max 1 (r / d) \<noteq> 0" by simp
  ultimately show ?thesis using assms by (simp add: scaledThreshold_def)
qed

lemma scaledThreshold_antitone:
  fixes s1 s2 e d base r :: real
  assumes "0 < s1" "s1 \<le> s2" "0 < e" "0 < d" "0 < base"
  shows "0 < base / s2 powr e / max 1 (r / d)"
    and "base / s2 powr e / max 1 (r / d) \<le> base / s1 powr e / max 1 (r / d)"
proof -
  have s2: "0 < s2" using assms(1,2) by linarith
  have p1: "0 < s1 powr e" using assms(1) by simp
  have p2: "0 < s2 powr e" using s2 by simp
  have le: "s1 powr e \<le> s2 powr e" using assms by (intro powr_mono2) auto
  have m: "0 < max 1 (r / d)" by simp
  show "0 < base / s2 powr e / max 1 (r / d)" using p2 m assms(5) by simp
  have "base / s2 powr e \<le> base / s1 powr e"
    using le p1 p2 assms(5) by (intro divide_left_mono mult_pos_pos) (simp_all del: powr_gt_zero)
  then show "base / s2 powr e / max 1 (r / d) \<le> base / s1 powr e / max 1 (r / d)"
    using m by (intro divide_right_mono) auto
qed

lemma less_threshold_mono:
  fixes a :: jsnum
  assumes "t2 \<le> t1" "Num t1 < a"
  shows "Num t2 < a"
  using assms by (cases a) auto

lemma getFrequencyWeight_range:
  "getFrequencyWeight st f = NaN \<or> (\<exists>k. getFrequencyWeight st f = Num k \<and> 0 \<le> k)"
proof -
  have e: "jexp z = NaN \<or> (\<exists>k. jexp z = Num k \<and> 0 \<le> k)" if "z \<noteq> PosInf" for z
    using that by (cases z) auto
  have m: "jmax (Num 0) y \<noteq> NegInf" for y by (cases y) auto
  have n1: "(- \<bar>x\<bar>) * jmax (Num 0) y \<noteq> PosInf" for x y
    by (cases x; cases y) (auto simp: max_def mult_le_0_iff zero_less_mult_iff)
  have n2: "(- x) * jmax (Num 0) y \<noteq> PosInf" if "Num 0 < x" for x y
    using that by (cases x; cases y) (auto simp: max_def mult_le_0_iff zero_less_mult_iff)
  have n3: "Num (- 2) * (\<bar>x\<bar> / Num 3500) \<noteq> PosInf" for x
    by (cases x) (auto)
  show ?thesis
    unfolding getFrequencyWeight_def Let_def
    using e n1 n2 n3 by (auto)
qed


lemma noDecrease_less:
  assumes "noDecrease a b" "Num c < a"
  shows "Num c < b"
  using assms(1)
proof (cases rule: noDecrease_cases)
  case 1
  with assms(2) show ?thesis by simp
next
  case (2 x y)
  with assms(2) show ?thesis by simp
qed

lemma notNegative_simps [simp]:
  "notNegative (Num r) \<longleftrightarrow> 0 \<le> r" "notNegative NaN" "notNegative PosInf" "notNegative NegInf"
  by (simp_all add: notNegative_def)

lemma notNegative_add: "notNegative a \<Longrightarrow> notNegative b \<Longrightarrow> notNegative (a + b)"
  by (cases a; cases b) simp_all

lemma notNegative_mult: "notNegative a \<Longrightarrow> notNegative b \<Longrightarrow> notNegative (a * b)"
  by (cases a; cases b) simp_all

lemma notNegative_div: "notNegative a \<Longrightarrow> notNegative b \<Longrightarrow> notNegative (a / b)"
  by (cases a; cases b) simp_all

lemma notNegative_jmax: "notNegative a \<Longrightarrow> notNegative b \<Longrightarrow> notNegative (jmax a b)"
  by (cases a; cases b) (simp_all add: max_def)

lemma notNegative_jmax0 [simp]: "notNegative (jmax (Num 0) x)"
  by (cases x) simp_all

lemma notNegative_abs [simp]: "notNegative \<bar>x\<bar>"
  by (cases x) simp_all

lemma notNegative_jsqrt [simp]: "notNegative (jsqrt x)"
  by (cases x) simp_all

lemma notNegative_pow10 [simp]: "notNegative (jpow (Num 10) y)"
  by (cases y) simp_all

lemma notNegative_fold_add:
  assumes "notNegative a" "\<And>i. notNegative (f i)"
  shows "notNegative (foldl (\<lambda>acc i. acc + f i) a xs)"
  using assms(1) by (induction xs arbitrary: a) (simp_all add: notNegative_add assms(2))

lemma notNegative_fold_jmax:
  assumes "notNegative a" "\<And>i. notNegative (f i)"
  shows "notNegative (foldl (\<lambda>acc i. jmax acc (f i)) a xs)"
  using assms(1) by (induction xs arbitrary: a) (simp_all add: notNegative_jmax assms(2))

lemma notNegative_errorRMS: "notNegative (predictionErrorRMS pe)"
  by (simp add: predictionErrorRMS_def)

lemma notNegative_errorPeak: "notNegative (predictionErrorPeak pe)"
  unfolding predictionErrorPeak_def by (rule notNegative_fold_jmax) simp_all

lemma notNegative_flux: "notNegative (computeSpectralFlux prev fd)"
  unfolding computeSpectralFlux_def
  by (auto intro!: notNegative_div notNegative_fold_add)

lemma notNegative_bandEnergy:
  assumes "0 \<le> w"
  shows "notNegative (fst (calculateBandEnergy st fd lo hi w))"
  unfolding calculateBandEnergy_def Let_def
  using assms
  by (auto split: prod.splits intro!: notNegative_mult notNegative_div notNegative_fold_add)

lemma setSensitivity_fields [simp]:
  "processingEnabled (setSensitivity st x) = processingEnabled st"
  "sampleRate (setSensitivity st x) = sampleRate st"
  "frequencyBinCount (setSensitivity st x) = frequencyBinCount st"
  "previousSpectrum (setSensitivity st x) = previousSpectrum st"
  "freqBinCache (setSensitivity st x) = freqBinCache st"
  "cacheSampleRate (setSensitivity st x) = cacheSampleRate st"
  "loudnessHistory (setSensitivity st x) = loudnessHistory st"
  "clickHistory (setSensitivity st x) = clickHistory st"
  "maxClicksPerSecond (setSensitivity st x) = maxClicksPerSecond st"
  "frequencySkew (params (setSensitivity st x)) = frequencySkew (params st)"
  by (simp_all add: setSensitivity_def)

lemma setSensitivity_stored:
  "0.1 \<le> s \<Longrightarrow> s \<le> 2 \<Longrightarrow> sensitivity (params (setSensitivity st (Num s))) = Num s"
  by (simp add: setSensitivity_def)

lemma loudness_setSensitivity [simp]:
  "fst (updateDynamicLoudness (setSensitivity st x) td fd) = fst (updateDynamicLoudness st td fd)"
  by (simp add: updateDynamicLoudness_def Let_def)

lemma freqBin_setSensitivity [simp]: "freqBin (setSensitivity st x) f = freqBin st f"
  by (simp add: freqBin_def)

lemma initFreqBinCache_setSensitivity:
  "initFreqBinCache (setSensitivity st x) = setSensitivity (initFreqBinCache st) x"
  by (simp add: initFreqBinCache_def setSensitivity_def freqBin_def)

lemma bandEnergy_setSensitivity [simp]:
  "fst (calculateBandEnergy (setSensitivity st x) fd lo hi w) = fst (calculateBandEnergy st fd lo hi w)"
  unfolding calculateBandEnergy_def Let_def initFreqBinCache_setSensitivity
  by (simp cong: option.case_cong add: split_beta)

lemma centroid_setSensitivity [simp]:
  "calculateSpectralCentroid (setSensitivity st x) fd = calculateSpectralCentroid st fd"
  by (simp add: calculateSpectralCentroid_def binFreq_def)

lemma frequencyWeight_setSensitivity [simp]:
  "getFrequencyWeight (setSensitivity st x) f = getFrequencyWeight st f"
  by (simp add: getFrequencyWeight_def)

lemma speechProtection_setSensitivity [simp]:
  "checkSpeechProtection (setSensitivity st x) td fd e = checkSpeechProtection st td fd e"
  by (simp add: checkSpeechProtection_def detectFormantStructure_def)

lemma checkSpeechProtection_range: "inRange 0 0.8 (checkSpeechProtection st td fd e)"
  by (simp add: checkSpeechProtection_def Let_def jmaxs_def inRange_def)

lemma fuse_total_NaN: "fst (foldl (fuseStep k) (NaN, wc) ms) = NaN"
  by (induction ms arbitrary: wc) (simp_all add: fuseStep_def Let_def)

lemma fuse_NaN: "fuseConfidence ms NaN = Num 0"
proof (cases ms)
  case Nil
  then show ?thesis by (simp add: fuseConfidence_def)
next
  case (Cons m rest)
  have w: "methodWeight m * NaN = NaN" by (cases "methodWeight m") simp_all
  have "foldl (fuseStep NaN) (Num 0, Num 0) ms
        = foldl (fuseStep NaN) (NaN, Num 0 + methodConfidence m * NaN) rest"
    using Cons w by (simp add: fuseStep_def Let_def)
  then have "fst (foldl (fuseStep NaN) (Num 0, Num 0) ms) = NaN"
    by (simp add: fuse_total_NaN)
  then show ?thesis by (simp add: fuseConfidence_def Let_def)
qed

lemma fuse_fold_rel:
  assumes "list_all2 sameMethod ms1 ms2" "noDecrease wc1 wc2" "0 \<le> k"
  shows "\<exists>T. fst (foldl (fuseStep (Num k)) (Num t, wc1) ms1) = Num T
         \<and> fst (foldl (fuseStep (Num k)) (Num t, wc2) ms2) = Num T
         \<and> noDecrease (snd (foldl (fuseStep (Num k)) (Num t, wc1) ms1))
                        (snd (foldl (fuseStep (Num k)) (Num t, wc2) ms2))"
  using assms(1,2)
proof (induction ms1 ms2 arbitrary: t wc1 wc2 rule: list_all2_induct)
  case Nil
  then show ?case by simp
next
  case (Cons m1 ms1 m2 ms2)
  from Cons.hyps(1) obtain w where w: "methodWeight m1 = Num w" "methodWeight m2 = Num w" "0 \<le> w"
    and c: "noDecrease (methodConfidence m1) (methodConfidence m2)"
    by (cases "methodWeight m1") (auto simp: sameMethod_def)
  have "noDecrease (methodConfidence m1 * Num (w * k)) (methodConfidence m2 * Num (w * k))"
    using c w(3) assms(3) by (intro noDecrease_mult_right) auto
  with Cons.prems have nd:
    "noDecrease (wc1 + methodConfidence m1 * Num (w * k)) (wc2 + methodConfidence m2 * Num (w * k))"
    by (intro noDecrease_add)
  have s1: "fuseStep (Num k) (Num t, wc1) m1 = (Num (t + w * k), wc1 + methodConfidence m1 * Num (w * k))"
    and s2: "fuseStep (Num k) (Num t, wc2) m2 = (Num (t + w * k), wc2 + methodConfidence m2 * Num (w * k))"
    using w by (simp_all add: fuseStep_def Let_def)
  from Cons.IH[OF nd, of "t + w * k"] show ?case
    by (simp only: foldl_Cons s1 s2)
qed

lemma fuse_mono:
  assumes "list_all2 sameMethod ms1 ms2" "k = NaN \<or> (\<exists>r. k = Num r \<and> 0 \<le> r)"
  shows "noDecrease (fuseConfidence ms1 k) (fuseConfidence ms2 k)"
proof (cases "k = NaN")
  case True
  then show ?thesis by (simp add: fuse_NaN)
next
  case False
  with assms(2) obtain r where r: "k = Num r" "0 \<le> r" by blast
  have nd: "noDecrease (Num 0) (Num 0)" by simp
  from fuse_fold_rel[OF assms(1) nd r(2), of 0] obtain T where
    f: "fst (foldl (fuseStep (Num r)) (Num 0, Num 0) ms1) = Num T"
       "fst (foldl (fuseStep (Num r)) (Num 0, Num 0) ms2) = Num T"
       "noDecrease (snd (foldl (fuseStep (Num r)) (Num 0, Num 0) ms1))
                   (snd (foldl (fuseStep (Num r)) (Num 0, Num 0) ms2))"
    by blast
  show ?thesis
  proof (cases "0 < T")
    case True
    with f r show ?thesis by (simp add: fuseConfidence_def Let_def noDecrease_div_right)
  next
    case False
    with f r show ?thesis by (simp add: fuseConfidence_def Let_def)
  qed
qed

subsection \<open>The quantities of a frame at two sensitivities\<close>

lemma frame_setSensitivity [simp]:
  "frameLoudness (setSensitivity st x) td fd = frameLoudness st td fd"
  "frameBandEnergy (setSensitivity st x) fd b = frameBandEnergy st fd b"
  "frameSpectralFlux (setSensitivity st x) fd = frameSpectralFlux st fd"
  "frameSkewWeight (setSensitivity st x) fd = frameSkewWeight st fd"
  by (simp_all add: frameLoudness_def frameBandEnergy_def frameSpectralFlux_def
      frameSkewWeight_def)

lemma frame_setSensitivity2 [simp]:
  "frameMouthBandRatio (setSensitivity st x) fd = frameMouthBandRatio st fd"
  "frameHighFreqBurst (setSensitivity st x) fd = frameHighFreqBurst st fd"
  "frameBands (setSensitivity st x) fd = frameBands st fd"
  by (simp_all add: frameMouthBandRatio_def frameHighFreqBurst_def frameBands_def)

lemma frame_setSensitivity3 [simp]:
  "frameSpeechProtection (setSensitivity st x) td fd = frameSpeechProtection st td fd"
  by (simp add: frameSpeechProtection_def)

lemma frame_snr: "\<exists>r. snr (frameLoudness st td fd) = Num r"
  using snr_inRange[of st td fd]
  by (cases "snr (frameLoudness st td fd)") (auto simp: frameLoudness_def inRange_def)

lemma frame_notNegative:
  "notNegative (frameSpectralFlux st fd)" "notNegative (frameMouthBandRatio st fd)"
  "notNegative (frameHighFreqBurst st fd)"
proof -
  have b: "notNegative (frameBandEnergy st fd b)" for b
    unfolding frameBandEnergy_def by (rule notNegative_bandEnergy) (cases b; simp)
  show "notNegative (frameSpectralFlux st fd)"
    by (simp add: frameSpectralFlux_def notNegative_flux)
  show "notNegative (frameMouthBandRatio st fd)"
    unfolding frameMouthBandRatio_def Let_def
    by (intro notNegative_div notNegative_add b) simp
  show "notNegative (frameHighFreqBurst st fd)"
    unfolding frameHighFreqBurst_def
    by (intro notNegative_div notNegative_add b) simp
qed

lemma threshold_pair:
  fixes s1 s2 :: real
  assumes s: "0.1 \<le> s1" "s1 \<le> s2" and pos: "0 < base" "0 < e" "0 < d"
    and r: "snr (frameLoudness st td fd) = Num r"
  obtains t1 t2 where
    "scaledThreshold base (Num s1) e (snr (frameLoudness st td fd)) d = Num t1"
    "scaledThreshold base (Num s2) e (snr (frameLoudness st td fd)) d = Num t2"
    "0 < t2" "t2 \<le> t1"
proof -
  have p1: "0 < s1" using s by simp
  have p2: "0 < s2" using s by simp
  show ?thesis
    using that[of "base / s1 powr e / max 1 (r / d)" "base / s2 powr e / max 1 (r / d)"]
      scaledThreshold_Num[OF p1 pos(2,3), of base r] scaledThreshold_Num[OF p2 pos(2,3), of base r]
      scaledThreshold_antitone[OF p1 s(2) pos(2,3,1), of r] r
    by simp
qed

lemma lpc_mono:
  fixes s1 s2 :: real
  assumes s: "0.1 \<le> s1" "s1 \<le> s2" "s2 \<le> 2"
  shows "noDecrease (frameLpcConfidence (setSensitivity st (Num s1)) td fd)
                    (frameLpcConfidence (setSensitivity st (Num s2)) td fd)"
proof -
  obtain r where r: "snr (frameLoudness st td fd) = Num r" using frame_snr by blast
  have s1: "sensitivity (params (setSensitivity st (Num s1))) = Num s1"
    and s2: "sensitivity (params (setSensitivity st (Num s2))) = Num s2"
    using s by (simp_all add: setSensitivity_stored)
  obtain t1 t2 where t:
    "scaledThreshold thresholds_lpcError (Num s1) 2.5 (snr (frameLoudness st td fd)) 10 = Num t1"
    "scaledThreshold thresholds_lpcError (Num s2) 2.5 (snr (frameLoudness st td fd)) 10 = Num t2"
    "0 < t2" "t2 \<le> t1"
    by (rule threshold_pair[OF s(1,2) _ _ _ r, of thresholds_lpcError "2.5" 10])
       (simp_all add: thresholds_lpcError_def)
  have a: "noDecrease (jmin (Num 2) (predictionErrorRMS (framePredictionError td) / Num t1))
                      (jmin (Num 2) (predictionErrorRMS (framePredictionError td) / Num t2))"
    using t by (intro confidence_ratio_mono notNegative_errorRMS)
  have b: "noDecrease (jmin (Num 2) (predictionErrorPeak (framePredictionError td) / Num (t1 * 3)))
                      (jmin (Num 2) (predictionErrorPeak (framePredictionError td) / Num (t2 * 3)))"
    using t by (intro confidence_ratio_mono notNegative_errorPeak) auto
  show ?thesis
    unfolding frameLpcConfidence_def Let_def s1 s2 frame_setSensitivity t times_jsnum.simps
    by (rule noDecrease_jmax[OF a b])
qed

lemma ratio_mono:
  assumes "notNegative x" "0 < q1" "q1 \<le> q2"
  shows "noDecrease (x / Num q2) (x / Num q1)"
proof (cases x)
  case (Num r)
  with assms have "r / q2 \<le> r / q1" by (simp add: frac_le)
  with Num assms show ?thesis by auto
qed (use assms in auto)

lemma jmin_mono_right:
  assumes "y2 \<le> y1"
  shows "noDecrease (jmin a (Num y2)) (jmin a (Num y1))"
  using assms by (cases a) (auto simp: min_def)

lemma stored:
  fixes s1 s2 :: real
  assumes "0.1 \<le> s1" "s1 \<le> s2" "s2 \<le> 2"
  shows "sensitivity (params (setSensitivity st (Num s1))) = Num s1"
    and "sensitivity (params (setSensitivity st (Num s2))) = Num s2"
  using assms by (simp_all add: setSensitivity_stored)

lemma flux_confidence_mono:
  fixes s1 s2 :: real
  assumes s: "0.1 \<le> s1" "s1 \<le> s2" "s2 \<le> 2"
  shows "noDecrease (frameSpectralThreshold (setSensitivity st (Num s2)) td fd)
                    (frameSpectralThreshold (setSensitivity st (Num s1)) td fd)"
    and "noDecrease
          (jmin (Num 2) (frameSpectralFlux (setSensitivity st (Num s1)) fd
                         / frameSpectralThreshold (setSensitivity st (Num s1)) td fd))
          (jmin (Num 2) (frameSpectralFlux (setSensitivity st (Num s2)) fd
                         / frameSpectralThreshold (setSensitivity st (Num s2)) td fd))"
    and "frameSpectralThreshold (setSensitivity st (Num s1)) td fd
           < frameSpectralFlux (setSensitivity st (Num s1)) fd
         \<Longrightarrow> frameSpectralThreshold (setSensitivity st (Num s2)) td fd
               < frameSpectralFlux (setSensitivity st (Num s2)) fd"
proof -
  obtain r where r: "snr (frameLoudness st td fd) = Num r" using frame_snr by blast
  obtain t1 t2 where t:
    "scaledThreshold thresholds_spectralFlux (Num s1) 2.2 (snr (frameLoudness st td fd)) 8 = Num t1"
    "scaledThreshold thresholds_spectralFlux (Num s2) 2.2 (snr (frameLoudness st td fd)) 8 = Num t2"
    "0 < t2" "t2 \<le> t1"
    by (rule threshold_pair[OF s(1,2) _ _ _ r, of thresholds_spectralFlux "2.2" 8])
       (simp_all add: thresholds_spectralFlux_def)
  have e1: "frameSpectralThreshold (setSensitivity st (Num s1)) td fd = Num t1"
    and e2: "frameSpectralThreshold (setSensitivity st (Num s2)) td fd = Num t2"
    unfolding frameSpectralThreshold_def stored[OF s] frame_setSensitivity by (rule t)+
  show "noDecrease (frameSpectralThreshold (setSensitivity st (Num s2)) td fd)
                    (frameSpectralThreshold (setSensitivity st (Num s1)) td fd)"
    using t by (simp add: e1 e2)
  show "noDecrease
          (jmin (Num 2) (frameSpectralFlux (setSensitivity st (Num s1)) fd
                         / frameSpectralThreshold (setSensitivity st (Num s1)) td fd))
          (jmin (Num 2) (frameSpectralFlux (setSensitivity st (Num s2)) fd
                         / frameSpectralThreshold (setSensitivity st (Num s2)) td fd))"
    unfolding e1 e2 frame_setSensitivity
    using t by (intro confidence_ratio_mono frame_notNegative)
  show "frameSpectralThreshold (setSensitivity st (Num s2)) td fd
               < frameSpectralFlux (setSensitivity st (Num s2)) fd"
    if "frameSpectralThreshold (setSensitivity st (Num s1)) td fd
           < frameSpectralFlux (setSensitivity st (Num s1)) fd"
    using that unfolding e1 e2 frame_setSensitivity by (rule less_threshold_mono[OF t(4)])
qed

lemma transient_confidence_mono:
  fixes s1 s2 :: real
  assumes s: "0.1 \<le> s1" "s1 \<le> s2" "s2 \<le> 2"
  shows "noDecrease (frameTransientThreshold (setSensitivity st (Num s2)) td fd)
                    (frameTransientThreshold (setSensitivity st (Num s1)) td fd)"
    and "noDecrease
          (jmin (Num 2) (frameMouthBandRatio (setSensitivity st (Num s1)) fd
                         / frameTransientThreshold (setSensitivity st (Num s1)) td fd))
          (jmin (Num 2) (frameMouthBandRatio (setSensitivity st (Num s2)) fd
                         / frameTransientThreshold (setSensitivity st (Num s2)) td fd))"
    and "frameTransientThreshold (setSensitivity st (Num s1)) td fd
           < frameMouthBandRatio (setSensitivity st (Num s1)) fd
         \<Longrightarrow> frameTransientThreshold (setSensitivity st (Num s2)) td fd
               < frameMouthBandRatio (setSensitivity st (Num s2)) fd"
proof -
  obtain r where r: "snr (frameLoudness st td fd) = Num r" using frame_snr by blast
  obtain t1 t2 where t:
    "scaledThreshold thresholds_transientRatio (Num s1) 2 (snr (frameLoudness st td fd)) 15 = Num t1"
    "scaledThreshold thresholds_transientRatio (Num s2) 2 (snr (frameLoudness st td fd)) 15 = Num t2"
    "0 < t2" "t2 \<le> t1"
    by (rule threshold_pair[OF s(1,2) _ _ _ r, of thresholds_transientRatio 2 15])
       (simp_all add: thresholds_transientRatio_def)
  have e1: "frameTransientThreshold (setSensitivity st (Num s1)) td fd = Num t1"
    and e2: "frameTransientThreshold (setSensitivity st (Num s2)) td fd = Num t2"
    unfolding frameTransientThreshold_def stored[OF s] frame_setSensitivity by (rule t)+
  show "noDecrease (frameTransientThreshold (setSensitivity st (Num s2)) td fd)
                    (frameTransientThreshold (setSensitivity st (Num s1)) td fd)"
    using t by (simp add: e1 e2)
  show "noDecrease
          (jmin (Num 2) (frameMouthBandRatio (setSensitivity st (Num s1)) fd
                         / frameTransientThreshold (setSensitivity st (Num s1)) td fd))
          (jmin (Num 2) (frameMouthBandRatio (setSensitivity st (Num s2)) fd
                         / frameTransientThreshold (setSensitivity st (Num s2)) td fd))"
    unfolding e1 e2 frame_setSensitivity2
    using t by (intro confidence_ratio_mono frame_notNegative)
  show "frameTransientThreshold (setSensitivity st (Num s2)) td fd
               < frameMouthBandRatio (setSensitivity st (Num s2)) fd"
    if "frameTransientThreshold (setSensitivity st (Num s1)) td fd
           < frameMouthBandRatio (setSensitivity st (Num s1)) fd"
    using that unfolding e1 e2 frame_setSensitivity2 by (rule less_threshold_mono[OF t(4)])
qed

lemma burst_mono:
  fixes s1 s2 :: real
  assumes s: "0.1 \<le> s1" "s1 \<le> s2" "s2 \<le> 2"
    and d: "frameBurstDetected (setSensitivity st (Num s1)) td fd"
  shows "frameBurstDetected (setSensitivity st (Num s2)) td fd"
proof -
  obtain r where r: "snr (frameLoudness st td fd) = Num r" using frame_snr by blast
  obtain t1 t2 where t:
    "scaledThreshold 2 (Num s1) 1.8 (snr (frameLoudness st td fd)) 10 = Num t1"
    "scaledThreshold 2 (Num s2) 1.8 (snr (frameLoudness st td fd)) 10 = Num t2"
    "0 < t2" "t2 \<le> t1"
    by (rule threshold_pair[OF s(1,2) _ _ _ r, of 2 "1.8" 10]) simp_all
  from d show ?thesis
    unfolding frameBurstDetected_def stored[OF s] frame_setSensitivity frame_setSensitivity2 t
    using t(4) by (rule less_threshold_mono[rotated])
qed

lemma spike_mono:
  fixes s1 s2 :: real
  assumes s: "0.1 \<le> s1" "s1 \<le> s2" "s2 \<le> 2"
    and d: "frameAmplitudeSpike (setSensitivity st (Num s1)) td fd"
  shows "frameAmplitudeSpike (setSensitivity st (Num s2)) td fd"
proof -
  obtain r where r: "snr (frameLoudness st td fd) = Num r" using frame_snr by blast
  obtain t1 t2 where t:
    "scaledThreshold 0.1 (Num s1) 2.3 (snr (frameLoudness st td fd)) 20 = Num t1"
    "scaledThreshold 0.1 (Num s2) 2.3 (snr (frameLoudness st td fd)) 20 = Num t2"
    "0 < t2" "t2 \<le> t1"
    by (rule threshold_pair[OF s(1,2) _ _ _ r, of "0.1" "2.3" 20]) simp_all
  from d show ?thesis
    unfolding frameAmplitudeSpike_def stored[OF s] frame_setSensitivity t
    using t(4) by (rule less_threshold_mono[rotated])
qed

lemma methods_mono:
  fixes s1 s2 :: real
  assumes s: "0.1 \<le> s1" "s1 \<le> s2" "s2 \<le> 2"
  shows "list_all2 (\<lambda>m1 m2. methodWeight m1 = methodWeight m2
                       \<and> noDecrease (methodConfidence m1) (methodConfidence m2)
                       \<and> (methodDetected m1 \<longrightarrow> methodDetected m2))
           (frameMethods (setSensitivity st (Num s1)) td fd)
           (frameMethods (setSensitivity st (Num s2)) td fd)"
    and "list_all2 sameMethod (frameMethods (setSensitivity st (Num s1)) td fd)
           (frameMethods (setSensitivity st (Num s2)) td fd)"
proof -
  note l = lpc_mono[OF s, of st td fd]
  have ld: "Num 0.4 < frameLpcConfidence (setSensitivity st (Num s2)) td fd"
    if "Num 0.4 < frameLpcConfidence (setSensitivity st (Num s1)) td fd"
    using l that by (rule noDecrease_less)
  note f = flux_confidence_mono[OF s, where st = st and td = td and fd = fd]
  note t = transient_confidence_mono[OF s, where st = st and td = td and fd = fd]
  note b = burst_mono[OF s, of st td fd]
  note a = spike_mono[OF s, of st td fd]
  have bc: "noDecrease (jmin (Num 2) (frameHighFreqBurst (setSensitivity st (Num s1)) fd / Num 2))
                       (jmin (Num 2) (frameHighFreqBurst (setSensitivity st (Num s2)) fd / Num 2))"
    by simp
  have ac: "noDecrease (if frameAmplitudeSpike (setSensitivity st (Num s1)) td fd then Num 1.5 else Num 0)
                       (if frameAmplitudeSpike (setSensitivity st (Num s2)) td fd then Num 1.5 else Num 0)"
    using a by auto
  show "list_all2 (\<lambda>m1 m2. methodWeight m1 = methodWeight m2
                       \<and> noDecrease (methodConfidence m1) (methodConfidence m2)
                       \<and> (methodDetected m1 \<longrightarrow> methodDetected m2))
           (frameMethods (setSensitivity st (Num s1)) td fd)
           (frameMethods (setSensitivity st (Num s2)) td fd)"
    unfolding frameMethods_def list_all2_Cons list_all2_Nil detectionMethod.select_convs
    by (intro conjI impI refl l f(2) t(2) bc ac; (erule ld f(3) t(3) b a)?)
  show "list_all2 sameMethod (frameMethods (setSensitivity st (Num s1)) td fd)
           (frameMethods (setSensitivity st (Num s2)) td fd)"
    unfolding frameMethods_def list_all2_Cons list_all2_Nil sameMethod_def detectionMethod.select_convs
    using l f(2) t(2) bc ac by simp
qed

lemma final_mono:
  fixes s1 s2 :: real
  assumes s: "0.1 \<le> s1" "s1 \<le> s2" "s2 \<le> 2"
  shows "noDecrease (frameFinalConfidence (setSensitivity st (Num s1)) td fd)
                    (frameFinalConfidence (setSensitivity st (Num s2)) td fd)"
  unfolding frameFinalConfidence_def frame_setSensitivity
  using methods_mono(2)[OF s] getFrequencyWeight_range
  by (intro fuse_mono) (auto simp: frameSkewWeight_def)

lemma adjusted_mono:
  fixes s1 s2 :: real
  assumes s: "0.1 \<le> s1" "s1 \<le> s2" "s2 \<le> 2"
  shows "noDecrease (frameAdjustedConfidence (setSensitivity st (Num s1)) td fd)
                    (frameAdjustedConfidence (setSensitivity st (Num s2)) td fd)"
proof -
  from checkSpeechProtection_range[of st td fd "frameBands st fd"] obtain p where
    p: "checkSpeechProtection st td fd (frameBands st fd) = Num p" "0 \<le> p" "p \<le> 0.8"
    by (cases "checkSpeechProtection st td fd (frameBands st fd)") (auto simp: inRange_def)
  have "Num 1 - frameSpeechProtection st td fd = Num (1 - p * 0.6)"
    by (simp add: frameSpeechProtection_def p)
  moreover have "0 \<le> 1 - p * 0.6" using p by simp
  ultimately show ?thesis
    unfolding frameAdjustedConfidence_def frame_setSensitivity3
    using final_mono[OF s, of st td fd] by (simp add: noDecrease_mult_right)
qed

lemma dynamicThreshold_mono:
  fixes s1 s2 :: real
  assumes s: "0.1 \<le> s1" "s1 \<le> s2" "s2 \<le> 2"
  shows "noDecrease (frameDynamicThreshold (setSensitivity st (Num s2)) td fd)
                    (frameDynamicThreshold (setSensitivity st (Num s1)) td fd)"
proof -
  have p1: "0 < s1" and p2: "0 < s2" using s by simp_all
  have q: "0 < s1 powr 1.5" "s1 powr 1.5 \<le> s2 powr 1.5"
    using p1 s(2) by (simp_all add: powr_mono2)
  have q2: "0 < s2 powr 1.5" using p2 by simp
  have "thresholds_confidenceThreshold / s2 powr 1.5 \<le> thresholds_confidenceThreshold / s1 powr 1.5"
    using q q2 by (intro divide_left_mono mult_pos_pos)
      (simp_all add: thresholds_confidenceThreshold_def del: powr_gt_zero)
  then have "noDecrease
      (jmin (infoAdaptiveThreshold (frameLoudness st td fd))
         (Num (thresholds_confidenceThreshold / s2 powr 1.5)))
      (jmin (infoAdaptiveThreshold (frameLoudness st td fd))
         (Num (thresholds_confidenceThreshold / s1 powr 1.5)))"
    by (rule jmin_mono_right)
  then show ?thesis
    using p1 p2 by (simp add: frameDynamicThreshold_def Let_def stored[OF s])
qed

lemma requiredConfidence_mono:
  fixes s1 s2 :: real
  assumes s: "0.1 \<le> s1" "s1 \<le> s2" "s2 \<le> 2"
  shows "noDecrease (requiredConfidence (setSensitivity st (Num s2)))
                    (requiredConfidence (setSensitivity st (Num s1)))"
proof -
  have p1: "0 < s1" and p2: "0 < s2" using s by simp_all
  have q: "0 < s1 powr 0.8" "s1 powr 0.8 \<le> s2 powr 0.8"
    using p1 s(2) by (simp_all add: powr_mono2)
  define c where "c = Num (real (length (clickHistory st))) / Num (real (maxClicksPerSecond st)) * Num 0.3"
  have "notNegative c" unfolding c_def by (intro notNegative_mult notNegative_div) simp_all
  then have a: "noDecrease (c / Num (s2 powr 0.8)) (c / Num (s1 powr 0.8))"
    using q by (rule ratio_mono)
  have b: "noDecrease (Num 0.5 / Num (s2 powr 0.8)) (Num 0.5 / Num (s1 powr 0.8))"
    using q by (intro ratio_mono) simp_all
  have j: "jpow (Num s1) (Num 0.8) = Num (s1 powr 0.8)" "jpow (Num s2) (Num 0.8) = Num (s2 powr 0.8)"
    using p1 p2 by simp_all
  show ?thesis
    unfolding requiredConfidence_def Let_def stored[OF s] setSensitivity_fields j c_def[symmetric]
    by (rule noDecrease_add[OF b a])
qed

lemma detect_result:
  assumes "detectMouthClick throws now t st td fd = (Inr r, st')"
  shows "confidence r = (if processingEnabled st then frameAdjustedConfidence st td fd else Num 0)
       \<and> lpcConfidence r = (if processingEnabled st then frameLpcConfidence st td fd else Num 0)
       \<and> spectralConfidence r = (if processingEnabled st then frameFinalConfidence st td fd else Num 0)
       \<and> details r = (if processingEnabled st then Some (analyseFrame st td fd) else None)"
  using assms
  by (auto simp: detectMouthClick_def Let_def analyseFrame_def
      split: if_splits prod.splits option.splits)

subsection \<open>The detector returns a result\<close>

lemma writeCircularBuffer_fields [simp]:
  "params (writeCircularBuffer st td) = params st"
  "previousSpectrum (writeCircularBuffer st td) = previousSpectrum st"
  "freqBinCache (writeCircularBuffer st td) = freqBinCache st"
  "cacheSampleRate (writeCircularBuffer st td) = cacheSampleRate st"
  "sampleRate (writeCircularBuffer st td) = sampleRate st"
  "frequencyBinCount (writeCircularBuffer st td) = frequencyBinCount st"
  "clickHistory (writeCircularBuffer st td) = clickHistory st"
  "maxClicksPerSecond (writeCircularBuffer st td) = maxClicksPerSecond st"
  "minClickInterval (writeCircularBuffer st td) = minClickInterval st"
  "lastClickTime (writeCircularBuffer st td) = lastClickTime st"
  "clickSuppressionTime (writeCircularBuffer st td) = clickSuppressionTime st"
  "clickGain (writeCircularBuffer st td) = clickGain st"
  "delayTime (writeCircularBuffer st td) = delayTime st"
  unfolding writeCircularBuffer_def
  by (induction td arbitrary: st; simp)+

lemma updateDynamicLoudness_fields [simp]:
  "params (snd (updateDynamicLoudness st td fd)) = params st"
  "previousSpectrum (snd (updateDynamicLoudness st td fd)) = previousSpectrum st"
  "freqBinCache (snd (updateDynamicLoudness st td fd)) = freqBinCache st"
  "cacheSampleRate (snd (updateDynamicLoudness st td fd)) = cacheSampleRate st"
  "sampleRate (snd (updateDynamicLoudness st td fd)) = sampleRate st"
  "frequencyBinCount (snd (updateDynamicLoudness st td fd)) = frequencyBinCount st"
  "clickHistory (snd (updateDynamicLoudness st td fd)) = clickHistory st"
  "maxClicksPerSecond (snd (updateDynamicLoudness st td fd)) = maxClicksPerSecond st"
  "minClickInterval (snd (updateDynamicLoudness st td fd)) = minClickInterval st"
  "lastClickTime (snd (updateDynamicLoudness st td fd)) = lastClickTime st"
  "clickSuppressionTime (snd (updateDynamicLoudness st td fd)) = clickSuppressionTime st"
  "clickGain (snd (updateDynamicLoudness st td fd)) = clickGain st"
  "delayTime (snd (updateDynamicLoudness st td fd)) = delayTime st"
  by (simp_all add: updateDynamicLoudness_def Let_def)

lemma initFreqBinCache_fields [simp]:
  "params (initFreqBinCache st) = params st"
  "previousSpectrum (initFreqBinCache st) = previousSpectrum st"
  "clickHistory (initFreqBinCache st) = clickHistory st"
  "maxClicksPerSecond (initFreqBinCache st) = maxClicksPerSecond st"
  "minClickInterval (initFreqBinCache st) = minClickInterval st"
  "lastClickTime (initFreqBinCache st) = lastClickTime st"
  "clickSuppressionTime (initFreqBinCache st) = clickSuppressionTime st"
  "clickGain (initFreqBinCache st) = clickGain st"
  "delayTime (initFreqBinCache st) = delayTime st"
  by (simp_all add: initFreqBinCache_def)

lemma shouldProcessClick_params [simp]:
  "params (snd (shouldProcessClick now st d c)) = params st"
  "clickGain (snd (shouldProcessClick now st d c)) = clickGain st"
  "delayTime (snd (shouldProcessClick now st d c)) = delayTime st"
  by (simp_all add: shouldProcessClick_def Let_def)

lemma schedule_accepting: "schedule acceptingHost acc cs = (acc @ cs, False)"
  by (induction cs arbitrary: acc) (simp_all add: acceptingHost_def)

lemma handle_accepting:
  assumes "inRange 1 20 (clickWidening (params st))"
  shows "fst (handleMouthClickDetected acceptingHost t st c) = None"
proof -
  from assms obtain w where w: "clickWidening (params st) = Num w" "1 \<le> w"
    by (cases "clickWidening (params st)") (auto simp: inRange_def)
  have "wideningDuration (params st) = Num (w / 1000 * (if mode (params st) = ''smack'' then 1.5 else 1))"
    using w by (simp add: wideningDuration_def Let_def)
  moreover have "0 < w / 1000 * (if mode (params st) = ''smack'' then 1.5 else 1)"
    using w by simp
  ultimately show ?thesis
    by (simp add: handleMouthClickDetected_def Let_def schedule_accepting)
qed

lemma detect_returns:
  assumes "inRange 1 20 (clickWidening (params st))"
    and "length fd \<le> length (previousSpectrum st)"
  shows "\<exists>r st'. detectMouthClick acceptingHost now t st td fd = (Inr r, st')"
proof (cases "processingEnabled st")
  case False
  then show ?thesis by (simp add: detectMouthClick_def)
next
  case True
  define st4 where "st4 = (initFreqBinCache (writeCircularBuffer (snd (updateDynamicLoudness st td fd)) td))
      \<lparr>previousSpectrum := fd @ drop (length fd) (previousSpectrum st)\<rparr>"
  define a where "a = analyseFrame st td fd"
  obtain ok st5 where sp: "shouldProcessClick now st4 (isClickDetected a) (adjustedConfidence a) = (ok, st5)"
    by (cases "shouldProcessClick now st4 (isClickDetected a) (adjustedConfidence a)") auto
  have "params st5 = params st4"
    using shouldProcessClick_params(1)[of now st4 "isClickDetected a" "adjustedConfidence a"]
    unfolding sp by simp
  also have "params st4 = params st"
    by (simp add: st4_def)
  finally have "params st5 = params st" .
  with assms(1) have "fst (handleMouthClickDetected acceptingHost t st5 (adjustedConfidence a)) = None"
    by (intro handle_accepting) simp
  then obtain st6 where h: "handleMouthClickDetected acceptingHost t st5 (adjustedConfidence a) = (None, st6)"
    by (cases "handleMouthClickDetected acceptingHost t st5 (adjustedConfidence a)") auto
  show ?thesis
    using True assms(2) sp h
    by (simp add: detectMouthClick_def Let_def st4_def[symmetric] a_def[symmetric])
qed


subsection \<open>Raising the sensitivity\<close>

text \<open>
  Claim C2. With every other parameter, the state and the frame held fixed, raising the
  sensitivity within its range \<open>[0.1, 2]\<close> never lowers a confidence: the confidence of each of
  the five detection methods, the fused confidence and the confidence after speech protection
  are not below their values at the lower sensitivity, the weights of the methods are the same,
  and a method that detected at the lower sensitivity detects at the higher one. The thresholds
  a confidence is compared with (spectral flux, transient ratio, the dynamic threshold of the
  overall decision, the confidence the rate limiter requires) are not above their values at the
  lower sensitivity. Whenever \<^verbatim>\<open>detectMouthClick\<close> returns a result at both sensitivities, the
  confidences it reports are ordered in the same way. A value that is not finite is the same at
  both sensitivities.
\<close>

theorem sensitivity_monotone:
  fixes s1 s2 :: real
  assumes "0.1 \<le> s1" and "s1 \<le> s2" and "s2 \<le> 2"
  shows "noDecrease (frameAdjustedConfidence (setSensitivity st (Num s1)) td fd)
                    (frameAdjustedConfidence (setSensitivity st (Num s2)) td fd)
       \<and> noDecrease (frameFinalConfidence (setSensitivity st (Num s1)) td fd)
                      (frameFinalConfidence (setSensitivity st (Num s2)) td fd)
       \<and> list_all2 (\<lambda>m1 m2. methodWeight m1 = methodWeight m2
                       \<and> noDecrease (methodConfidence m1) (methodConfidence m2)
                       \<and> (methodDetected m1 \<longrightarrow> methodDetected m2))
           (frameMethods (setSensitivity st (Num s1)) td fd)
           (frameMethods (setSensitivity st (Num s2)) td fd)
       \<and> noDecrease (frameSpectralThreshold (setSensitivity st (Num s2)) td fd)
                      (frameSpectralThreshold (setSensitivity st (Num s1)) td fd)
       \<and> noDecrease (frameTransientThreshold (setSensitivity st (Num s2)) td fd)
                      (frameTransientThreshold (setSensitivity st (Num s1)) td fd)
       \<and> noDecrease (frameDynamicThreshold (setSensitivity st (Num s2)) td fd)
                      (frameDynamicThreshold (setSensitivity st (Num s1)) td fd)
       \<and> noDecrease (requiredConfidence (setSensitivity st (Num s2)))
                      (requiredConfidence (setSensitivity st (Num s1)))
       \<and> (\<forall>r1 r2 st1 st2.
             detectMouthClick throws now t (setSensitivity st (Num s1)) td fd = (Inr r1, st1)
             \<and> detectMouthClick throws now t (setSensitivity st (Num s2)) td fd = (Inr r2, st2)
             \<longrightarrow> noDecrease (confidence r1) (confidence r2)
                 \<and> noDecrease (lpcConfidence r1) (lpcConfidence r2)
                 \<and> noDecrease (spectralConfidence r1) (spectralConfidence r2))"
proof -
  have results: "noDecrease (confidence r1) (confidence r2)
                 \<and> noDecrease (lpcConfidence r1) (lpcConfidence r2)
                 \<and> noDecrease (spectralConfidence r1) (spectralConfidence r2)"
    if "detectMouthClick throws now t (setSensitivity st (Num s1)) td fd = (Inr r1, st1)"
      and "detectMouthClick throws now t (setSensitivity st (Num s2)) td fd = (Inr r2, st2)"
    for r1 r2 st1 st2
    using detect_result[OF that(1)] detect_result[OF that(2)]
      adjusted_mono[OF assms, of st td fd] lpc_mono[OF assms, of st td fd]
      final_mono[OF assms, of st td fd]
    by simp
  show ?thesis
    using adjusted_mono[OF assms, of st td fd] final_mono[OF assms, of st td fd]
      methods_mono(1)[OF assms, of st td fd]
      flux_confidence_mono(1)[OF assms, of st td fd]
      transient_confidence_mono(1)[OF assms, of st td fd]
      dynamicThreshold_mono[OF assms, of st td fd] requiredConfidence_mono[OF assms, of st]
      results
    by blast
qed

theorem sensitivity_monotone_witness:
  "(0.1::real) \<le> 0.5 \<and> (0.5::real) \<le> 1.5 \<and> (1.5::real) \<le> 2
   \<and> (\<exists>r1 r2 st1 st2.
        detectMouthClick acceptingHost 1000 1 (setSensitivity enabledEngine (Num 0.5)) quietFrame flatSpectrum = (Inr r1, st1)
        \<and> detectMouthClick acceptingHost 1000 1 (setSensitivity enabledEngine (Num 1.5)) quietFrame flatSpectrum = (Inr r2, st2)
        \<and> noDecrease (confidence r1) (confidence r2)
        \<and> noDecrease (lpcConfidence r1) (lpcConfidence r2)
        \<and> noDecrease (spectralConfidence r1) (spectralConfidence r2))
   \<and> noDecrease (frameDynamicThreshold (setSensitivity enabledEngine (Num 1.5)) quietFrame flatSpectrum)
                  (frameDynamicThreshold (setSensitivity enabledEngine (Num 0.5)) quietFrame flatSpectrum)"
proof -
  have bounds: "(0.1::real) \<le> 0.5" "(0.5::real) \<le> 1.5" "(1.5::real) \<le> 2"
    by simp_all
  have widening: "inRange 1 20 (clickWidening (params (setSensitivity enabledEngine (Num x))))" for x
    by (simp add: setSensitivity_def enabledEngine_def constructor_def initialParams_def inRange_def)
  have spectrum: "length flatSpectrum \<le> length (previousSpectrum (setSensitivity enabledEngine (Num x)))" for x
    by (simp add: setSensitivity_def enabledEngine_def constructor_def flatSpectrum_def)
  obtain r1 st1 where r1:
    "detectMouthClick acceptingHost 1000 1 (setSensitivity enabledEngine (Num 0.5)) quietFrame flatSpectrum = (Inr r1, st1)"
    using detect_returns[OF widening spectrum] by blast
  obtain r2 st2 where r2:
    "detectMouthClick acceptingHost 1000 1 (setSensitivity enabledEngine (Num 1.5)) quietFrame flatSpectrum = (Inr r2, st2)"
    using detect_returns[OF widening spectrum] by blast
  from sensitivity_monotone[OF bounds, of enabledEngine quietFrame flatSpectrum acceptingHost 1000 1] r1 r2 bounds
  show ?thesis
    by blast
qed

section \<open>Silence and linear prediction\<close>

subsection \<open>An all-zero window\<close>

lemma item_silent:
  "\<forall>x \<in> set xs. x = Num 0 \<Longrightarrow> i < length xs \<Longrightarrow> item xs i = Num 0"
  by (simp add: item_def)

lemma item_replicate: "item (replicate n c) i = (if i < n then c else NaN)"
  by (simp add: item_def)

lemma fold_add_const:
  "\<forall>i \<in> set idx. f i = Num m \<Longrightarrow>
   foldl (\<lambda>acc i. acc + f i) (Num a) idx = Num (a + real (length idx) * m)"
  by (induction idx arbitrary: a) (simp_all add: algebra_simps)

lemma lpc_short:
  "length signal < order * 2 \<Longrightarrow>
   computeLPCCoefficients signal order = (replicate (order + 1) (Num 0), Num 1)"
  by (simp add: computeLPCCoefficients_def)

lemma lpc_quiet:
  "autocorrelation signal 0 < Num eps10 \<Longrightarrow>
   computeLPCCoefficients signal order = (replicate (order + 1) (Num 0), Num 1)"
  by (simp add: computeLPCCoefficients_def Let_def item_def nth_append del: upt_Suc)

lemma autocorrelation_silent:
  assumes "\<forall>x \<in> set signal. x = Num 0" and "signal \<noteq> []"
  shows "autocorrelation signal 0 = Num 0"
proof -
  have "\<forall>i \<in> set [0..<length signal]. item signal i * item signal (i + 0) = Num 0"
    using assms(1) by (simp add: item_silent)
  then have "foldl (\<lambda>rk i. rk + item signal i * item signal (i + 0)) (Num 0) [0..<length signal]
             = Num (0 + real (length [0..<length signal]) * 0)"
    by (rule fold_add_const)
  then show ?thesis using assms(2) by (simp add: autocorrelation_def)
qed

lemma lpc_silent:
  assumes "\<forall>x \<in> set signal. x = Num 0" and "signal \<noteq> [] \<or> 0 < order"
  shows "computeLPCCoefficients signal order = (replicate (order + 1) (Num 0), Num 1)"
proof (cases "signal = []")
  case True
  with assms(2) show ?thesis by (simp add: lpc_short)
next
  case False
  with assms(1) have "autocorrelation signal 0 = Num 0" by (rule autocorrelation_silent)
  then show ?thesis by (simp add: lpc_quiet eps10_def)
qed

lemma predictionError_silent:
  assumes "\<forall>x \<in> set signal. x = Num 0" and "\<forall>x \<in> set coeffs. x = Num 0"
  shows "computePredictionError signal coeffs = replicate (length signal) (Num 0)"
proof -
  have "\<forall>j \<in> set [Suc 0..<Suc (length coeffs - Suc 0)]. item coeffs j * Num 0 = Num 0"
    using assms(2) by (auto simp: item_silent)
  then have "foldl (\<lambda>prediction j. prediction + item coeffs j * Num 0)
               (Num 0) [Suc 0..<Suc (length coeffs - Suc 0)]
             = Num (0 + real (length [Suc 0..<Suc (length coeffs - Suc 0)]) * 0)"
    by (rule fold_add_const)
  then have inner: "foldl (\<lambda>prediction j. prediction + item coeffs j * Num 0)
               (Num 0) [Suc 0..<Suc (length coeffs - Suc 0)] = Num 0"
    by simp
  show ?thesis
    unfolding computePredictionError_def Let_def
    by (rule nth_equalityI) (simp_all add: inner item_silent[OF assms(1)] minus_jsnum_def del: upt_Suc)
qed

lemma errorRMS_silent:
  "n \<noteq> lpcOrder \<Longrightarrow> predictionErrorRMS (replicate n (Num 0)) = Num 0"
proof -
  assume n: "n \<noteq> lpcOrder"
  have "\<forall>i \<in> set [lpcOrder..<n]. item (replicate n (Num 0)) i * item (replicate n (Num 0)) i = Num 0"
    by (simp add: item_replicate)
  then have "foldl (\<lambda>rms i. rms + item (replicate n (Num 0)) i * item (replicate n (Num 0)) i)
               (Num 0) [lpcOrder..<n] = Num (0 + real (length [lpcOrder..<n]) * 0)"
    by (rule fold_add_const)
  then show ?thesis using n by (simp add: predictionErrorRMS_def)
qed

lemma fold_jmax_zero:
  "\<forall>i \<in> set idx. f i = Num 0 \<Longrightarrow> foldl (\<lambda>m i. jmax m (f i)) (Num 0) idx = Num 0"
  by (induction idx) simp_all

lemma errorPeak_silent: "predictionErrorPeak (replicate n (Num 0)) = Num 0"
  unfolding predictionErrorPeak_def
  by (rule fold_jmax_zero) (simp add: item_replicate)

lemma length_analysisWindow: "length (analysisWindow td) = min 1024 (length td)"
  by (simp add: analysisWindow_def Let_def)

lemma set_analysisWindow: "set (analysisWindow td) \<subseteq> set td"
  by (simp add: analysisWindow_def Let_def set_drop_subset)

lemma framePredictionError_silent:
  assumes "\<forall>x \<in> set td. x = Num 0"
  shows "framePredictionError td = replicate (min 1024 (length td)) (Num 0)"
proof -
  have w: "\<forall>x \<in> set (analysisWindow td). x = Num 0"
    using assms set_analysisWindow[of td] by blast
  have "computeLPCCoefficients (analysisWindow td) lpcOrder = (replicate (lpcOrder + 1) (Num 0), Num 1)"
    by (rule lpc_silent[OF w]) (simp add: lpcOrder_def)
  then show ?thesis
    unfolding framePredictionError_def Let_def
    by (simp add: predictionError_silent[OF w] length_analysisWindow del: replicate.simps)
qed

lemma maxAmplitude_silent:
  "\<forall>x \<in> set td. x = Num 0 \<Longrightarrow> computeMaxAmplitude td = Num 0"
  unfolding computeMaxAmplitude_def by (induction td) simp_all

lemma frame_threshold_positive:
  assumes "inRange 0.1 2 (sensitivity (params st))" and "0 < base" "0 < e" "0 < d"
  shows "\<exists>t. scaledThreshold base (sensitivity (params st)) e (snr (frameLoudness st td fd)) d = Num t
             \<and> 0 < t"
proof -
  from assms(1) obtain s where s: "sensitivity (params st) = Num s" "0.1 \<le> s"
    by (cases "sensitivity (params st)") (auto simp: inRange_def)
  obtain r where r: "snr (frameLoudness st td fd) = Num r" using frame_snr by blast
  have p: "0 < s" using s(2) by simp
  have "0 < base / s powr e / max 1 (r / d)"
    using assms(2) p by (simp add: divide_pos_pos)
  then show ?thesis
    unfolding s(1) r using scaledThreshold_Num[OF p assms(3,4), of base r] by blast
qed

lemma frameLpcConfidence_silent:
  assumes "\<forall>x \<in> set td. x = Num 0" and "length td \<noteq> lpcOrder"
    and "inRange 0.1 2 (sensitivity (params st))"
  shows "frameLpcConfidence st td fd = Num 0"
proof -
  have n: "min 1024 (length td) \<noteq> lpcOrder"
    using assms(2) by (simp add: lpcOrder_def min_def)
  obtain t where t: "scaledThreshold thresholds_lpcError (sensitivity (params st)) 2.5
                       (snr (frameLoudness st td fd)) 10 = Num t" "0 < t"
    using frame_threshold_positive[OF assms(3), of thresholds_lpcError "2.5" 10 td fd]
    by (auto simp: thresholds_lpcError_def)
  show ?thesis
    unfolding frameLpcConfidence_def Let_def framePredictionError_silent[OF assms(1)]
      errorRMS_silent[OF n] errorPeak_silent t(1)
    using t(2) by simp
qed

lemma frameAmplitudeSpike_silent:
  assumes "\<forall>x \<in> set td. x = Num 0" and "inRange 0.1 2 (sensitivity (params st))"
  shows "\<not> frameAmplitudeSpike st td fd"
proof -
  obtain t where t: "scaledThreshold 0.1 (sensitivity (params st)) 2.3
                       (snr (frameLoudness st td fd)) 20 = Num t" "0 < t"
    using frame_threshold_positive[OF assms(2), of "0.1" "2.3" 20 td fd] by auto
  show ?thesis
    unfolding frameAmplitudeSpike_def maxAmplitude_silent[OF assms(1)] t(1)
    using t(2) by simp
qed

lemma confidenceSensitivity_positive:
  assumes "inRange 0.1 2 (sensitivity (params st))"
  shows "\<exists>c. jpow (sensitivity (params st)) (Num 1.5) = Num c \<and> 0 < c"
proof -
  from assms obtain s where s: "sensitivity (params st) = Num s" "0.1 \<le> s"
    by (cases "sensitivity (params st)") (auto simp: inRange_def)
  have "0 < s" using s(2) by simp
  then show ?thesis unfolding s(1) by simp
qed

lemma frameIsClickDetected_silent:
  assumes "\<forall>x \<in> set td. x = Num 0" and "length td \<noteq> lpcOrder"
    and "inRange 0.1 2 (sensitivity (params st))"
  shows "frameIsClickDetected st td fd
         = (frameDynamicThreshold st td fd < frameAdjustedConfidence st td fd)"
proof -
  obtain c where c: "jpow (sensitivity (params st)) (Num 1.5) = Num c" "0 < c"
    using confidenceSensitivity_positive[OF assms(3)] by blast
  show ?thesis
    unfolding frameIsClickDetected_def Let_def frameLpcConfidence_silent[OF assms] c(1)
    using c(2) frameAmplitudeSpike_silent[OF assms(1,3), of fd] by simp
qed

subsection \<open>A flat spectrum\<close>

lemma insertAscending_replicate:
  "insertAscending (Num c) (replicate n (Num c)) = replicate (Suc n) (Num c)"
  by (induction n) (simp_all add: minus_jsnum_def)

lemma sortAscending_replicate: "sortAscending (replicate n (Num c)) = replicate n (Num c)"
  unfolding sortAscending_def
  by (induction n) (simp_all add: insertAscending_replicate)

lemma silent_info:
  assumes "\<forall>x \<in> set td. x = Num 0" and "loudnessHistory st = replicate 30 (Num (- 60))"
  shows "snr (frameLoudness st td fd) = Num 0.1"
    and "infoAdaptiveThreshold (frameLoudness st td fd) = Num (130 / 599)"
proof -
  have silent: "\<forall>x \<in> set td. x = Num 0 \<or> \<not> isFinite x" using assms(1) by blast
  have sum: "foldl (\<lambda>rms x. if isFinite x then rms + x * x else rms) (Num 0) td = Num 0"
    by (rule sumSquares_silent[OF silent])
  have root: "\<not> (isFinite (jsqrt (Num 0 / Num (real (length td))))
               \<and> Num 0 < jsqrt (Num 0 / Num (real (length td))))"
    by (cases "td = []") simp_all
  have history: "tl (replicate 30 (Num (- 60)) @ [Num (- 60)]) = replicate 30 (Num (- 60))"
    by (simp add: replicate_append_same del: replicate.simps)
  have index: "nat \<lfloor>real (30::nat) * 0.1\<rfloor> = 3" by simp
  have background: "item (replicate 30 (Num (- 60))) 3 = Num (- 60)"
    by (simp add: item_replicate)
  show "snr (frameLoudness st td fd) = Num 0.1"
    unfolding frameLoudness_def updateDynamicLoudness_def Let_def fst_conv
      loudnessInfo.select_convs sum assms(2)
    using root
    by (simp add: history sortAscending_replicate index background minus_jsnum_def del: replicate.simps)
  show "infoAdaptiveThreshold (frameLoudness st td fd) = Num (130 / 599)"
    unfolding frameLoudness_def updateDynamicLoudness_def Let_def fst_conv
      loudnessInfo.select_convs sum assms(2)
    using root
    by (simp add: history sortAscending_replicate index background minus_jsnum_def
          thresholds_confidenceThreshold_def del: replicate.simps)
qed

lemma jpow10: "jpow (Num 10) (Num e) = Num (10 powr e)"
  by simp

lemma band_fold_flat:
  assumes "hi \<le> n"
  shows "foldl (\<lambda>energy i. energy + jpow (Num 10) (item (replicate n (Num c)) i / Num 20)) (Num 0) [lo..<hi]
         = Num (real (hi - lo) * 10 powr (c / 20))"
proof -
  have "\<forall>i \<in> set [lo..<hi]. jpow (Num 10) (item (replicate n (Num c)) i / Num 20) = Num (10 powr (c / 20))"
    using assms by (simp add: item_replicate jpow10 del: jpow.simps)
  then have "foldl (\<lambda>energy i. energy + jpow (Num 10) (item (replicate n (Num c)) i / Num 20)) (Num 0) [lo..<hi]
             = Num (0 + real (length [lo..<hi]) * 10 powr (c / 20))"
    by (rule fold_add_const)
  then show ?thesis by simp
qed

lemma freqBin_default:
  assumes "frequencyBinCount st = 4096" "sampleRate st = 48000"
  shows "freqBin st 100 = 8" "freqBin st 800 = 68" "freqBin st 2500 = 213"
    "freqBin st 8000 = 682" "freqBin st 2000 = 170" "freqBin st 5000 = 426"
  using assms by (simp_all add: freqBin_def)

lemma calculateBandEnergy_uncached:
  assumes "freqBinCache st = None"
  shows "fst (calculateBandEnergy st fd lo hi w)
         = (if freqBin st lo < freqBin st hi
            then foldl (\<lambda>energy i. energy + jpow (Num 10) (item fd i / Num 20)) (Num 0)
                   [freqBin st lo..<freqBin st hi]
                 / Num (real (freqBin st hi - freqBin st lo)) * Num w
            else Num 0)"
proof -
  have bin: "freqBin (st\<lparr>cacheSampleRate := r, freqBinCache := c\<rparr>) f = freqBin st f" for r c f
    by (simp add: freqBin_def)
  show ?thesis
    unfolding calculateBandEnergy_def initFreqBinCache_def Let_def
    using assms
    by (auto simp: bin of_nat_diff split: option.splits prod.splits simp del: jpow.simps)
qed

lemma bandEnergy_flat:
  assumes "freqBinCache st = None" "frequencyBinCount st = 4096" "sampleRate st = 48000"
  shows "frameBandEnergy st (replicate 4096 (Num c)) b = Num (10 powr (c / 20) * freqWeights b)"
proof -
  have fold: "foldl (\<lambda>energy i. energy + jpow (Num 10) (item (replicate 4096 (Num c)) i / Num 20)) (Num 0) [lo..<hi]
         = Num (real (hi - lo) * 10 powr (c / 20))" if "hi \<le> 4096" for lo hi
    using that by (rule band_fold_flat)
  show ?thesis
    unfolding frameBandEnergy_def calculateBandEnergy_uncached[OF assms(1)]
    by (cases b) (simp_all add: freqBin_default[OF assms(2,3)] fold del: jpow.simps upt_rec_numeral)
qed

lemma flux_flat:
  assumes "0 < n"
  shows "computeSpectralFlux (replicate n (Num p)) (replicate n (Num c)) = Num (max 0 (c - p))"
proof -
  have "\<forall>i \<in> set [0..<n]. jmax (Num 0) (item (replicate n (Num c)) i - item (replicate n (Num p)) i)
          = Num (max 0 (c - p))"
    by (simp add: item_replicate minus_jsnum_def max_def)
  then have "foldl (\<lambda>flux i. flux + jmax (Num 0) (item (replicate n (Num c)) i - item (replicate n (Num p)) i))
               (Num 0) [0..<n] = Num (0 + real (length [0..<n]) * max 0 (c - p))"
    by (rule fold_add_const)
  then show ?thesis using assms by (simp add: computeSpectralFlux_def)
qed

lemma centroid_fold_finite:
  assumes "\<forall>i \<in> set idx. \<exists>a b. f i = Num a \<and> g i = Num b"
  shows "\<exists>n d. foldl (\<lambda>(numerator, denominator) i. (numerator + f i * g i, denominator + g i))
                 (Num x, Num y) idx = (Num n, Num d)"
  using assms
proof (induction idx arbitrary: x y)
  case Nil
  then show ?case by simp
next
  case (Cons i idx)
  from Cons.prems obtain a b where ab: "f i = Num a" "g i = Num b" by auto
  from Cons.prems have rest: "\<forall>i \<in> set idx. \<exists>a b. f i = Num a \<and> g i = Num b" by simp
  show ?case using Cons.IH[OF rest, of "x + a * b" "y + b"] by (simp add: ab)
qed

lemma magnitude_finite:
  assumes "\<forall>x \<in> set fd. isFinite x" and "i < length fd"
  shows "\<exists>b. magnitude fd i = Num b"
proof -
  from assms have "isFinite (fd ! i)" by simp
  then obtain r where "fd ! i = Num r" by (cases "fd ! i") auto
  then show ?thesis using assms(2) by (simp add: magnitude_def item_def)
qed

lemma centroid_finite:
  assumes "\<forall>x \<in> set fd. isFinite x"
  shows "\<exists>c. calculateSpectralCentroid st fd = Num c"
proof -
  have "\<forall>i \<in> set [0..<length fd]. \<exists>a b. binFreq st fd i = Num a \<and> magnitude fd i = Num b"
    using magnitude_finite[OF assms] by (simp add: binFreq_def)
  from centroid_fold_finite[OF this, of 0 0] obtain n d where
    "foldl (\<lambda>(numerator, denominator) i.
              (numerator + binFreq st fd i * magnitude fd i, denominator + magnitude fd i))
       (Num 0, Num 0) [0..<length fd] = (Num n, Num d)" by blast
  then show ?thesis by (simp add: calculateSpectralCentroid_def)
qed

lemma skewWeight_neutral:
  assumes "frequencySkew (params st) = Num 0" and "\<forall>x \<in> set fd. isFinite x"
  shows "\<exists>w. frameSkewWeight st fd = Num w \<and> 0 < w"
proof -
  obtain c where c: "calculateSpectralCentroid st fd = Num c"
    using centroid_finite[OF assms(2)] by blast
  show ?thesis
    by (simp add: frameSkewWeight_def getFrequencyWeight_def Let_def assms(1) c minus_jsnum_def)
qed

lemma formant_fold_flat:
  assumes "\<forall>i \<in> set idx. g i = Num c \<or> g i = NaN" and "prev = Num c \<or> prev = NaN"
  shows "\<exists>v. foldl (\<lambda>(peakCount, prevValue, isRising) i.
                     if prevValue < g i \<and> \<not> isRising
                     then (peakCount, g i, True)
                     else if g i < prevValue \<and> isRising
                     then (peakCount + 1, g i, False)
                     else (peakCount, g i, isRising))
              (0 :: nat, prev, False) idx = (0, v, False)"
  using assms
proof (induction idx arbitrary: prev)
  case Nil
  then show ?case by simp
next
  case (Cons i idx)
  from Cons.prems have here: "g i = Num c \<or> g i = NaN"
    and rest: "\<forall>i \<in> set idx. g i = Num c \<or> g i = NaN" by simp_all
  have step: "\<not> prev < g i" using here Cons.prems(2) by auto
  show ?case using Cons.IH[OF rest here] step by simp
qed

lemma formant_flat: "detectFormantStructure st (replicate n (Num c)) = Num 0"
proof -
  define a where "a = nat \<lfloor>500 * real (length (replicate n (Num c))) * 2 / sampleRate st\<rfloor>"
  define b where "b = nat \<lfloor>3000 * real (length (replicate n (Num c))) * 2 / sampleRate st\<rfloor>"
  have flat: "item (replicate n (Num c)) i = Num c \<or> item (replicate n (Num c)) i = NaN" for i
    by (simp add: item_replicate)
  then have "\<forall>i \<in> set [a + 1..<b].
               item (replicate n (Num c)) i = Num c \<or> item (replicate n (Num c)) i = NaN"
    by blast
  from formant_fold_flat[OF this flat[of a]] obtain v where
    "foldl (\<lambda>(peakCount, prevValue, isRising) i.
              if prevValue < item (replicate n (Num c)) i \<and> \<not> isRising
              then (peakCount, item (replicate n (Num c)) i, True)
              else if item (replicate n (Num c)) i < prevValue \<and> isRising
              then (peakCount + 1, item (replicate n (Num c)) i, False)
              else (peakCount, item (replicate n (Num c)) i, isRising))
       (0 :: nat, item (replicate n (Num c)) a, False) [a + 1..<b] = (0, v, False)" by blast
  then show ?thesis
    unfolding detectFormantStructure_def Let_def a_def[symmetric] b_def[symmetric]
    by simp
qed

lemma autocorr_silent:
  assumes "\<forall>x \<in> set td. x = Num 0"
  shows "calculateAutocorrelation td k = replicate k (Num 0)"
proof -
  have entry: "foldl (\<lambda>acc i. acc + item td i * item td (i + lag)) (Num 0) [0..<length td - lag]
               = Num 0" if "lag < length td" for lag
  proof -
    have "\<forall>i \<in> set [0..<length td - lag]. item td i * item td (i + lag) = Num 0"
      using assms that by (simp add: item_silent)
    then have "foldl (\<lambda>acc i. acc + item td i * item td (i + lag)) (Num 0) [0..<length td - lag]
               = Num (0 + real (length [0..<length td - lag]) * 0)"
      by (rule fold_add_const)
    then show ?thesis by simp
  qed
  show ?thesis
    unfolding calculateAutocorrelation_def Let_def
    by (rule nth_equalityI) (simp_all add: entry del: upt_Suc)
qed

lemma foldl_jmax_zero: "foldl jmax (Num 0) (replicate n (Num 0)) = Num 0"
  by (induction n) simp_all

lemma jmaxs_zero: "jmaxs (replicate (Suc n) (Num 0)) = Num 0"
  by (simp add: jmaxs_def foldl_jmax_zero)

lemma speechProtection_silent_flat:
  assumes "\<forall>x \<in> set td. x = Num 0" and "\<not> high e < low e + mid e"
  shows "checkSpeechProtection st td (replicate n (Num c)) e = Num 0"
proof -
  have "drop 10 (replicate 50 (Num 0)) = replicate (Suc 39) (Num 0)"
    by (simp del: replicate.simps)
  then have periodicity: "jmaxs (drop 10 (replicate 50 (Num 0))) = Num 0"
    by (simp only: jmaxs_zero)
  have factors: "jmaxs [Num 0, Num 0, Num 0] = Num 0"
    by (simp add: jmaxs_def)
  show ?thesis
    unfolding checkSpeechProtection_def Let_def autocorr_silent[OF assms(1)] formant_flat periodicity
    using assms(2) by (simp add: factors)
qed

lemma fuse_five:
  assumes "0 < w"
  shows "fuseConfidence
           [\<lparr>methodConfidence = Num c1, methodWeight = Num 0.35, methodDetected = d1\<rparr>,
            \<lparr>methodConfidence = Num c2, methodWeight = Num 0.25, methodDetected = d2\<rparr>,
            \<lparr>methodConfidence = Num c3, methodWeight = Num 0.2, methodDetected = d3\<rparr>,
            \<lparr>methodConfidence = Num c4, methodWeight = Num 0.15, methodDetected = d4\<rparr>,
            \<lparr>methodConfidence = Num c5, methodWeight = Num 0.05, methodDetected = d5\<rparr>] (Num w)
         = Num (0.35 * c1 + 0.25 * c2 + 0.2 * c3 + 0.15 * c4 + 0.05 * c5)"
  using assms by (simp add: fuseConfidence_def fuseStep_def Let_def field_simps)

subsection \<open>A silent frame after a rise of the spectrum\<close>

lemma shouldProcessClick_detected:
  "fst (shouldProcessClick now st d c) \<Longrightarrow> d"
  by (cases d) (simp_all add: shouldProcessClick_def)

lemma detect_isClick:
  assumes "detectMouthClick throws now t st td fd = (Inr r, st')" and "isClick r"
  shows "frameIsClickDetected st td fd"
proof (cases "processingEnabled st")
  case False
  then show ?thesis using assms by (auto simp: detectMouthClick_def)
next
  case True
  define st4 where "st4 = (initFreqBinCache (writeCircularBuffer (snd (updateDynamicLoudness st td fd)) td))
      \<lparr>previousSpectrum := fd @ drop (length fd) (previousSpectrum st)\<rparr>"
  define a where "a = analyseFrame st td fd"
  obtain ok st5 where sp: "shouldProcessClick now st4 (isClickDetected a) (adjustedConfidence a) = (ok, st5)"
    by (cases "shouldProcessClick now st4 (isClickDetected a) (adjustedConfidence a)") auto
  have "isClick r = ok"
    using assms(1) True sp
    by (auto simp: detectMouthClick_def Let_def st4_def[symmetric] a_def[symmetric]
        split: if_splits prod.splits option.splits)
  with assms(2) sp have "fst (shouldProcessClick now st4 (isClickDetected a) (adjustedConfidence a))"
    by simp
  then have "isClickDetected a" by (rule shouldProcessClick_detected)
  then show ?thesis by (simp add: a_def analyseFrame_def)
qed

lemma detect_admitted:
  assumes "processingEnabled st" and "length fd \<le> length (previousSpectrum st)"
    and "inRange 1 20 (clickWidening (params st))"
    and "frameIsClickDetected st td fd"
    and "clickHistory st = []" and "clickSuppressionTime st \<le> now"
    and "0 < maxClicksPerSecond st" and "minClickInterval st \<le> now - lastClickTime st"
    and "\<not> frameAdjustedConfidence st td fd < requiredConfidence st"
  shows "\<exists>r st'. detectMouthClick acceptingHost now t st td fd = (Inr r, st') \<and> isClick r"
proof -
  define st4 where "st4 = (initFreqBinCache (writeCircularBuffer (snd (updateDynamicLoudness st td fd)) td))
      \<lparr>previousSpectrum := fd @ drop (length fd) (previousSpectrum st)\<rparr>"
  define a where "a = analyseFrame st td fd"
  have a: "isClickDetected a" "adjustedConfidence a = frameAdjustedConfidence st td fd"
    using assms(4) by (simp_all add: a_def analyseFrame_def)
  have required: "requiredConfidence (st4\<lparr>clickHistory := []\<rparr>) = requiredConfidence st"
    by (simp add: requiredConfidence_def st4_def assms(5))
  have fields: "clickHistory st4 = []" "clickSuppressionTime st4 = clickSuppressionTime st"
    "maxClicksPerSecond st4 = maxClicksPerSecond st" "lastClickTime st4 = lastClickTime st"
    "minClickInterval st4 = minClickInterval st" "params st4 = params st"
    by (simp_all add: st4_def assms(5))
  obtain ok st5 where sp: "shouldProcessClick now st4 (isClickDetected a) (adjustedConfidence a) = (ok, st5)"
    by (cases "shouldProcessClick now st4 (isClickDetected a) (adjustedConfidence a)") auto
  have ok: "ok"
    using sp assms(6,7,8,9) a
    by (simp add: shouldProcessClick_def Let_def fields required split: if_splits)
  have "params st5 = params st4"
    using shouldProcessClick_params(1)[of now st4 "isClickDetected a" "adjustedConfidence a"]
    unfolding sp by simp
  then have "params st5 = params st" by (simp add: fields)
  with assms(3) have "fst (handleMouthClickDetected acceptingHost t st5 (adjustedConfidence a)) = None"
    by (intro handle_accepting) simp
  then obtain st6 where h: "handleMouthClickDetected acceptingHost t st5 (adjustedConfidence a) = (None, st6)"
    by (cases "handleMouthClickDetected acceptingHost t st5 (adjustedConfidence a)") auto
  show ?thesis
    using assms(1,2) sp h ok
    by (simp add: detectMouthClick_def Let_def st4_def[symmetric] a_def[symmetric])
qed

lemma confidence_Num:
  assumes "0 < t" and "0 \<le> q"
  shows "\<exists>c. jmin (Num 2) (Num q / Num t) = Num c \<and> 0 \<le> c"
  using assms by simp

lemma primedEngine_fields:
  "processingEnabled primedEngine" "params primedEngine = initialParams"
  "freqBinCache primedEngine = None" "frequencyBinCount primedEngine = 4096"
  "sampleRate primedEngine = 48000"
  "previousSpectrum primedEngine = replicate 4096 (Num (- 100))"
  "loudnessHistory primedEngine = replicate 30 (Num (- 60))"
  "clickHistory primedEngine = []" "maxClicksPerSecond primedEngine = 8"
  "minClickInterval primedEngine = 125" "lastClickTime primedEngine = 0"
  "clickSuppressionTime primedEngine = 0"
  by (simp_all add: primedEngine_def enabledEngine_def constructor_def)

lemma silentFrame_silent: "\<forall>x \<in> set silentFrame. x = Num 0"
  by (simp add: silentFrame_def)

lemma primed_sensitivity: "inRange 0.1 2 (sensitivity (params primedEngine))"
  by (simp add: primedEngine_fields initialParams_def inRange_def)

lemma primed_lpc: "frameLpcConfidence primedEngine silentFrame flatSpectrum = Num 0"
  by (rule frameLpcConfidence_silent[OF silentFrame_silent _ primed_sensitivity])
     (simp add: silentFrame_def lpcOrder_def)

lemma primed_snr: "snr (frameLoudness primedEngine silentFrame flatSpectrum) = Num 0.1"
  by (rule silent_info(1)[OF silentFrame_silent primedEngine_fields(7)])

lemma primed_adaptive:
  "infoAdaptiveThreshold (frameLoudness primedEngine silentFrame flatSpectrum) = Num (130 / 599)"
  by (rule silent_info(2)[OF silentFrame_silent primedEngine_fields(7)])

lemma primed_thresholds:
  "frameSpectralThreshold primedEngine silentFrame flatSpectrum = Num 0.16"
  "frameTransientThreshold primedEngine silentFrame flatSpectrum = Num 2.8"
  "frameDynamicThreshold primedEngine silentFrame flatSpectrum = Num (130 / 599)"
  "requiredConfidence primedEngine = Num 0.5"
  by (simp_all add: frameSpectralThreshold_def frameTransientThreshold_def
      frameDynamicThreshold_def requiredConfidence_def Let_def primed_snr primed_adaptive
      primedEngine_fields initialParams_def scaledThreshold_def thresholds_spectralFlux_def
      thresholds_transientRatio_def thresholds_confidenceThreshold_def)

lemma primed_flux: "frameSpectralFlux primedEngine flatSpectrum = Num 60"
  unfolding frameSpectralFlux_def primedEngine_fields flatSpectrum_def
  by (simp add: flux_flat)

lemma primed_energy:
  "frameBandEnergy primedEngine flatSpectrum b = Num (10 powr (- 40 / 20) * freqWeights b)"
  unfolding flatSpectrum_def
  by (rule bandEnergy_flat) (simp_all add: primedEngine_fields)

lemma primed_ratios:
  "\<exists>q. frameMouthBandRatio primedEngine flatSpectrum = Num q \<and> 0 \<le> q"
  "\<exists>h. frameHighFreqBurst primedEngine flatSpectrum = Num h \<and> 0 \<le> h"
proof -
  define m :: real where "m = 10 powr (- 40 / 20)"
  have m: "0 < m" by (simp add: m_def)
  have e: "frameBandEnergy primedEngine flatSpectrum b = Num (m * freqWeights b)" for b
    unfolding m_def by (rule primed_energy)
  have d1: "m * 0.2 + m * 0.6 + m * 1 + 0.0001 \<noteq> 0" using m by simp
  have d2: "m * 0.2 + m * 0.6 + 0.0001 \<noteq> 0" using m by simp
  have "frameMouthBandRatio primedEngine flatSpectrum
        = Num (m * 1.5 / (m * 0.2 + m * 0.6 + m * 1 + 0.0001))"
    unfolding frameMouthBandRatio_def Let_def e using d1 by simp
  moreover have "0 \<le> m * 1.5 / (m * 0.2 + m * 0.6 + m * 1 + 0.0001)"
    using m by simp
  ultimately show "\<exists>q. frameMouthBandRatio primedEngine flatSpectrum = Num q \<and> 0 \<le> q"
    by blast
  have "frameHighFreqBurst primedEngine flatSpectrum = Num (m * 1 / (m * 0.2 + m * 0.6 + 0.0001))"
    unfolding frameHighFreqBurst_def e using d2 by simp
  moreover have "0 \<le> m * 1 / (m * 0.2 + m * 0.6 + 0.0001)"
    using m by simp
  ultimately show "\<exists>h. frameHighFreqBurst primedEngine flatSpectrum = Num h \<and> 0 \<le> h"
    by blast
qed

lemma primed_sustained:
  "\<not> high (frameBands primedEngine flatSpectrum)
      < low (frameBands primedEngine flatSpectrum) + mid (frameBands primedEngine flatSpectrum)"
proof -
  have "0 < (10::real) powr (- 40 / 20)" by simp
  then show ?thesis
    by (simp add: frameBands_def primed_energy del: powr_gt_zero)
qed

lemma primed_protection: "frameSpeechProtection primedEngine silentFrame flatSpectrum = Num 0"
proof -
  have "checkSpeechProtection primedEngine silentFrame (replicate 4096 (Num (- 40)))
          (frameBands primedEngine flatSpectrum) = Num 0"
    by (rule speechProtection_silent_flat[OF silentFrame_silent primed_sustained])
  then show ?thesis
    by (simp add: frameSpeechProtection_def flatSpectrum_def[symmetric])
qed

lemma primed_final:
  "\<exists>c. frameFinalConfidence primedEngine silentFrame flatSpectrum = Num c \<and> 0.5 \<le> c"
proof -
  obtain q where q: "frameMouthBandRatio primedEngine flatSpectrum = Num q" "0 \<le> q"
    using primed_ratios(1) by blast
  obtain h where h: "frameHighFreqBurst primedEngine flatSpectrum = Num h" "0 \<le> h"
    using primed_ratios(2) by blast
  obtain c3 where c3: "jmin (Num 2) (Num q / Num 2.8) = Num c3" "0 \<le> c3"
    using confidence_Num[OF _ q(2), of "2.8"] by auto
  obtain c4 where c4: "jmin (Num 2) (Num h / Num 2) = Num c4" "0 \<le> c4"
    using confidence_Num[OF _ h(2), of 2] by auto
  have c2: "jmin (Num 2) (Num 60 / Num 0.16) = Num 2" by simp
  have spike: "frameAmplitudeSpike primedEngine silentFrame flatSpectrum = False"
    using frameAmplitudeSpike_silent[OF silentFrame_silent primed_sensitivity] by simp
  have finite: "\<forall>x \<in> set flatSpectrum. isFinite x" by (simp add: flatSpectrum_def)
  obtain w where w: "frameSkewWeight primedEngine flatSpectrum = Num w" "0 < w"
    using skewWeight_neutral[OF _ finite, of primedEngine]
    by (auto simp: primedEngine_fields initialParams_def)
  have "frameFinalConfidence primedEngine silentFrame flatSpectrum
        = Num (0.35 * 0 + 0.25 * 2 + 0.2 * c3 + 0.15 * c4 + 0.05 * 0)"
    unfolding frameFinalConfidence_def frameMethods_def primed_lpc primed_flux
      primed_thresholds q(1) h(1) c2 c3(1) c4(1) spike if_False w(1)
    by (rule fuse_five[OF w(2)])
  then show ?thesis using c3(2) c4(2) by simp
qed

lemma primed_decided:
  "\<exists>r st'. detectMouthClick acceptingHost 1000 1 primedEngine silentFrame flatSpectrum = (Inr r, st')
           \<and> isClick r"
proof -
  obtain c where c: "frameFinalConfidence primedEngine silentFrame flatSpectrum = Num c" "0.5 \<le> c"
    using primed_final by blast
  have adjusted: "frameAdjustedConfidence primedEngine silentFrame flatSpectrum = Num c"
    by (simp add: frameAdjustedConfidence_def c(1) primed_protection minus_jsnum_def)
  have len: "length silentFrame \<noteq> lpcOrder" by (simp add: silentFrame_def lpcOrder_def)
  have detected: "frameIsClickDetected primedEngine silentFrame flatSpectrum"
    unfolding frameIsClickDetected_silent[OF silentFrame_silent len primed_sensitivity, of flatSpectrum]
      primed_thresholds adjusted
    using c(2) by simp
  show ?thesis
  proof (rule detect_admitted[OF primedEngine_fields(1) _ _ detected primedEngine_fields(8)])
    show "length flatSpectrum \<le> length (previousSpectrum primedEngine)"
      by (simp add: primedEngine_fields flatSpectrum_def)
    show "inRange 1 20 (clickWidening (params primedEngine))"
      by (simp add: primedEngine_fields initialParams_def inRange_def)
    show "clickSuppressionTime primedEngine \<le> 1000" by (simp add: primedEngine_fields)
    show "0 < maxClicksPerSecond primedEngine" by (simp add: primedEngine_fields)
    show "minClickInterval primedEngine \<le> 1000 - lastClickTime primedEngine"
      by (simp add: primedEngine_fields)
    show "\<not> frameAdjustedConfidence primedEngine silentFrame flatSpectrum
            < requiredConfidence primedEngine"
      unfolding adjusted primed_thresholds using c(2) by simp
  qed
qed

subsection \<open>Linear prediction on silence\<close>

text \<open>
  Claim C6. \<^verbatim>\<open>computeLPCCoefficients\<close> returns the all-zero coefficient vector of length
  \<open>order + 1\<close> and the error 1 for every window shorter than \<open>2 * order\<close>, for every window
  whose zeroth autocorrelation is below \<open>1e-10\<close>, and for every all-zero window (an empty
  window at order 0 apart, whose zeroth autocorrelation is \<open>0 / 0\<close>). On an all-zero frame
  whose length is not \<^verbatim>\<open>lpcOrder\<close>, under a sensitivity within \<open>[0.1, 2]\<close>, the LPC confidence
  is 0 and there is no amplitude spike, so the two rules of the decision that need an LPC
  confidence do not fire: the frame is detected exactly when the confidence fused from the
  spectrum, after speech protection, exceeds the dynamic threshold, and every result that
  \<^verbatim>\<open>detectMouthClick\<close> returns reports the LPC confidence 0 and decides a click only then.
  The counterexample is a silent frame on which a click is decided: the spectrum is at -40 dB
  in every bin after a spectrum at -100 dB, the spectral flux alone gives the confidence 2 at
  the weight 0.25, and the fused confidence is at least 0.5.
\<close>

theorem lpc_silence:
  "(length signal < order * 2 \<or> autocorrelation signal 0 < Num eps10
      \<or> ((\<forall>x \<in> set signal. x = Num 0) \<and> (signal \<noteq> [] \<or> 0 < order))
    \<longrightarrow> computeLPCCoefficients signal order = (replicate (order + 1) (Num 0), Num 1))
   \<and> ((\<forall>x \<in> set td. x = Num 0) \<and> length td \<noteq> lpcOrder
         \<and> inRange 0.1 2 (sensitivity (params st))
       \<longrightarrow> frameLpcConfidence st td fd = Num 0
           \<and> \<not> frameAmplitudeSpike st td fd
           \<and> (frameIsClickDetected st td fd
                = (frameDynamicThreshold st td fd < frameAdjustedConfidence st td fd))
           \<and> (\<forall>r st'. detectMouthClick throws now t st td fd = (Inr r, st')
                 \<longrightarrow> lpcConfidence r = Num 0
                      \<and> (isClick r
                           \<longrightarrow> frameDynamicThreshold st td fd < frameAdjustedConfidence st td fd)))"
proof (intro conjI impI)
  assume "length signal < order * 2 \<or> autocorrelation signal 0 < Num eps10
      \<or> ((\<forall>x \<in> set signal. x = Num 0) \<and> (signal \<noteq> [] \<or> 0 < order))"
  then show "computeLPCCoefficients signal order = (replicate (order + 1) (Num 0), Num 1)"
    using lpc_short[of signal order] lpc_quiet[of signal order] lpc_silent[of signal order]
    by blast
next
  assume a: "(\<forall>x \<in> set td. x = Num 0) \<and> length td \<noteq> lpcOrder
             \<and> inRange 0.1 2 (sensitivity (params st))"
  then have silent: "\<forall>x \<in> set td. x = Num 0" and len: "length td \<noteq> lpcOrder"
    and range: "inRange 0.1 2 (sensitivity (params st))" by simp_all
  show lpc: "frameLpcConfidence st td fd = Num 0"
    by (rule frameLpcConfidence_silent[OF silent len range])
  show "\<not> frameAmplitudeSpike st td fd"
    by (rule frameAmplitudeSpike_silent[OF silent range])
  show decision: "frameIsClickDetected st td fd
        = (frameDynamicThreshold st td fd < frameAdjustedConfidence st td fd)"
    by (rule frameIsClickDetected_silent[OF silent len range])
  show "\<forall>r st'. detectMouthClick throws now t st td fd = (Inr r, st')
          \<longrightarrow> lpcConfidence r = Num 0
              \<and> (isClick r \<longrightarrow> frameDynamicThreshold st td fd < frameAdjustedConfidence st td fd)"
  proof (intro allI impI conjI)
    fix r st'
    assume run: "detectMouthClick throws now t st td fd = (Inr r, st')"
    show "lpcConfidence r = Num 0"
      using detect_result[OF run] lpc by simp
    assume "isClick r"
    with run have "frameIsClickDetected st td fd" by (rule detect_isClick)
    then show "frameDynamicThreshold st td fd < frameAdjustedConfidence st td fd"
      using decision by simp
  qed
qed

theorem lpc_silence_witness:
  "length (replicate 8 (Num 0)) < lpcOrder * 2
   \<and> computeLPCCoefficients (replicate 8 (Num 0)) lpcOrder = (replicate (lpcOrder + 1) (Num 0), Num 1)
   \<and> list_all (\<lambda>x. x = Num 0) silentFrame \<and> length silentFrame \<noteq> lpcOrder
   \<and> inRange 0.1 2 (sensitivity (params primedEngine))
   \<and> frameLpcConfidence primedEngine silentFrame flatSpectrum = Num 0
   \<and> (\<exists>r st'. detectMouthClick acceptingHost 1000 1 primedEngine silentFrame flatSpectrum = (Inr r, st')
         \<and> isClick r \<and> lpcConfidence r = Num 0
         \<and> frameDynamicThreshold primedEngine silentFrame flatSpectrum
             < frameAdjustedConfidence primedEngine silentFrame flatSpectrum)"
proof -
  have short: "length (replicate 8 (Num 0)) < lpcOrder * 2" by (simp add: lpcOrder_def)
  have silent: "\<forall>x \<in> set silentFrame. x = Num 0" by (simp add: silentFrame_def)
  have listed: "list_all (\<lambda>x. x = Num 0) silentFrame" by (simp add: silentFrame_def list_all_iff)
  have len: "length silentFrame \<noteq> lpcOrder" by (simp add: silentFrame_def lpcOrder_def)
  have range: "inRange 0.1 2 (sensitivity (params primedEngine))"
    by (simp add: primedEngine_def enabledEngine_def constructor_def initialParams_def inRange_def)
  obtain r st' where run:
    "detectMouthClick acceptingHost 1000 1 primedEngine silentFrame flatSpectrum = (Inr r, st')"
    "isClick r"
    using primed_decided by blast
  from lpc_silence[of "replicate 8 (Num 0)" lpcOrder silentFrame primedEngine flatSpectrum
      acceptingHost 1000 1] short silent listed len range run
  show ?thesis by blast
qed

theorem silent_click_counterexample:
  "list_all (\<lambda>x. x = Num 0) silentFrame
   \<and> (\<exists>r st'. detectMouthClick acceptingHost 1000 1 primedEngine silentFrame flatSpectrum = (Inr r, st')
         \<and> isClick r \<and> lpcConfidence r = Num 0)"
proof -
  have listed: "list_all (\<lambda>x. x = Num 0) silentFrame" by (simp add: silentFrame_def list_all_iff)
  obtain r st' where run:
    "detectMouthClick acceptingHost 1000 1 primedEngine silentFrame flatSpectrum = (Inr r, st')"
    "isClick r"
    using primed_decided by blast
  have "lpcConfidence r = Num 0"
    using detect_result[OF run(1)] primed_lpc by (simp add: primedEngine_fields)
  with listed run show ?thesis by blast
qed

end
